theory Spec2Isabelle
  imports Main "HOL-Library.Word"
begin

section \<open>The decision endpoint of the energy-saving rApp (main.py)\<close>

text \<open>
  The handler \<open>decision\<close> of \<open>main.py\<close> orchestrates six collaborators that live in other
  modules (\<open>fetch_pm\<close>, \<open>run_etl\<close>, \<open>predict_next_window\<close>, \<open>decide\<close>, \<open>build_policy\<close>,
  \<open>post_policy\<close>) and touches the file system itself: the idempotency flags under
  \<open>data/idempotency\<close>, the dry-run payload \<open>data/processed/policy_payload.json\<close>, the audit
  entries under \<open>data/audit\<close> and the log \<open>logs/decision_log.jsonl\<close>.

  The embedding passes the file system explicitly. Every exception of the Python code is
  a value: an operation returns \<open>Inl e\<close> together with the state it left behind, since a
  raise does not undo the writes made before it.
\<close>

subsection \<open>Values\<close>

text \<open>A Python float is carried as its 64 bits; the handler only copies floats.\<close>

type_synonym float = "64 word"

text \<open>Python values that travel through the handler: what \<open>json.loads\<close> returns and
  what \<open>json.dumps\<close> accepts. A dict is an association list, looked up from the front.\<close>

datatype json =
    JNull
  | JBool bool
  | JInt int
  | JFloat float
  | JStr string
  | JArr "json list"
  | JObj "(string \<times> json) list"

text \<open>The exceptions that reach the caller. The handler defines no exception class of
  its own: what it raises itself are the built-in \<open>OSError\<close> family (with the path),
  \<open>ValueError\<close> (a path with a NUL byte), \<open>json.JSONDecodeError\<close> and \<open>AttributeError\<close>;
  \<open>Raised name\<close> is an exception of class \<open>name\<close> raised inside a collaborator.
  Strings are byte strings, and the values the collaborators return are taken to be
  serialisable, so encoding errors and the \<open>TypeError\<close> of \<open>json.dumps\<close> have no
  counterpart here.\<close>

datatype exn =
    OSError "string list"
  | ValueError
  | JSONDecodeError
  | AttributeError
  | Raised string

text \<open>\<open>d.get(k)\<close>: the value, or \<open>None\<close> for a missing key; only a dict has \<open>get\<close>.\<close>

fun py_get :: "json \<Rightarrow> string \<Rightarrow> exn + json" where
  "py_get (JObj kvs) k = Inr (case map_of kvs k of Some v \<Rightarrow> v | None \<Rightarrow> JNull)"
| "py_get _ k = Inl AttributeError"

text \<open>\<open>bool(v)\<close>: Python truthiness.\<close>

fun py_bool :: "json \<Rightarrow> bool" where
  "py_bool JNull = False"
| "py_bool (JBool b) = b"
| "py_bool (JInt i) = (i \<noteq> 0)"
| "py_bool (JFloat f) = (f \<noteq> 0 \<and> f \<noteq> 0x8000000000000000)"
| "py_bool (JStr s) = (s \<noteq> [])"
| "py_bool (JArr xs) = (xs \<noteq> [])"
| "py_bool (JObj kvs) = (kvs \<noteq> [])"

subsection \<open>Clock readings\<close>

text \<open>A \<open>datetime\<close> object, as \<open>datetime.now(timezone.utc)\<close> returns it.\<close>

record datetime =
  year :: nat
  month :: nat
  day :: nat
  hour :: nat
  minute :: nat
  second :: nat
  microsecond :: nat

definition digit :: "nat \<Rightarrow> char" where
  "digit d = ''0123456789'' ! (d mod 10)"

definition pad2 :: "nat \<Rightarrow> string" where
  "pad2 n = [digit (n div 10), digit n]"

definition pad4 :: "nat \<Rightarrow> string" where
  "pad4 n = [digit (n div 1000), digit (n div 100), digit (n div 10), digit n]"

definition pad6 :: "nat \<Rightarrow> string" where
  "pad6 n = [digit (n div 100000), digit (n div 10000), digit (n div 1000),
             digit (n div 100), digit (n div 10), digit n]"

text \<open>\<open>strftime("%Y%m%dT%H%M%SZ")\<close>: every field at its fixed width (the year has
  four digits from the year 1000 on); the microseconds are dropped.\<close>

definition strftime :: "datetime \<Rightarrow> string" where
  "strftime t = pad4 (year t) @ pad2 (month t) @ pad2 (day t) @ ''T'' @
                pad2 (hour t) @ pad2 (minute t) @ pad2 (second t) @ ''Z''"

text \<open>\<open>isoformat()\<close> of an aware UTC datetime; the fraction is printed unless it is 0.\<close>

definition isoformat :: "datetime \<Rightarrow> string" where
  "isoformat t = pad4 (year t) @ ''-'' @ pad2 (month t) @ ''-'' @ pad2 (day t) @ ''T'' @
                 pad2 (hour t) @ '':'' @ pad2 (minute t) @ '':'' @ pad2 (second t) @
                 (if microsecond t = 0 then [] else ''.'' @ pad6 (microsecond t)) @ ''+00:00''"

text \<open>The order of two readings: lexicographic on the fields, as Python compares
  datetimes of one time zone.\<close>

definition dt_key :: "datetime \<Rightarrow> nat list" where
  "dt_key t = [year t, month t, day t, hour t, minute t, second t, microsecond t]"

fun lex_less :: "nat list \<Rightarrow> nat list \<Rightarrow> bool" where
  "lex_less (a # as) (b # bs) = (a < b \<or> (a = b \<and> lex_less as bs))"
| "lex_less _ _ = False"

definition dt_less :: "datetime \<Rightarrow> datetime \<Rightarrow> bool" where
  "dt_less t u = lex_less (dt_key t) (dt_key u)"

text \<open>The handler reads the clock at two places: for the content of the idempotency flag
  (line 89) and for the audit timestamp (line 127).\<close>

record clock =
  now_flag :: datetime
  now_audit :: datetime

subsection \<open>The file system\<close>

text \<open>A path is the list of its components, relative to the working directory.
  \<open>Path(s)\<close> splits at the slashes and drops empty and \<open>.\<close> components, as pathlib does;
  \<open>..\<close> is kept as a component and absolute paths are not told apart.\<close>

type_synonym path = "string list"

fun split_slash :: "string \<Rightarrow> string list" where
  "split_slash [] = [] # []"
| "split_slash (c # cs) =
     (if c = CHR ''/'' then [] # split_slash cs
      else (case split_slash cs of
              w # ws \<Rightarrow> (c # w) # ws
            | [] \<Rightarrow> [c] # []))"

definition path_of :: "string \<Rightarrow> path" where
  "path_of s = filter (\<lambda>w. w \<noteq> [] \<and> w \<noteq> ''.'') (split_slash s)"

text \<open>The content of a file is the sequence of pieces written to it: plain text, or
  the text \<open>json.dumps\<close> made of a value.\<close>

datatype chunk = Text string | Json json

datatype node = Dir | File "chunk list"

text \<open>\<open>denied\<close> holds the paths the operating system refuses to create or write
  (permissions, quota, a read-only mount, a name that is too long); \<open>ext\<close> is whatever
  else the collaborators act on (the network, the model).\<close>

record 'x state =
  nodes :: "path \<rightharpoonup> node"
  denied :: "path set"
  ext :: 'x

type_synonym ('a, 'x) io = "'x state \<Rightarrow> (exn + 'a) \<times> 'x state"

definition ret :: "'a \<Rightarrow> ('a, 'x) io" where
  "ret a s = (Inr a, s)"

definition lift :: "exn + 'a \<Rightarrow> ('a, 'x) io" where
  "lift r s = (r, s)"

text \<open>Sequencing: the first exception ends the call.\<close>

definition seq :: "('a, 'x) io \<Rightarrow> ('a \<Rightarrow> ('b, 'x) io) \<Rightarrow> ('b, 'x) io" where
  "seq m f s = (case m s of
                  (Inl e, s') \<Rightarrow> (Inl e, s')
                | (Inr a, s') \<Rightarrow> f a s')"

definition is_dir :: "'x state \<Rightarrow> path \<Rightarrow> bool" where
  "is_dir s p \<longleftrightarrow> p = [] \<or> nodes s p = Some Dir"

text \<open>A path with a NUL byte never reaches the file system: \<open>mkdir\<close>, \<open>open\<close> and
  \<open>read_text\<close> raise \<open>ValueError\<close> for it, and \<open>exists\<close> answers \<open>False\<close>.\<close>

definition has_nul :: "path \<Rightarrow> bool" where
  "has_nul p \<longleftrightarrow> CHR 0x00 \<in> set (concat p)"

text \<open>\<open>Path.mkdir(parents=True, exist_ok=True)\<close>: walk the prefixes of the path from the
  top; an existing directory is kept, a missing one is created, a regular file in the
  way raises.\<close>

fun mkdirs :: "path list \<Rightarrow> (unit, 'x) io" where
  "mkdirs [] s = (Inr (), s)"
| "mkdirs (q # qs) s =
     (case nodes s q of
        Some Dir \<Rightarrow> mkdirs qs s
      | Some (File cs) \<Rightarrow> (Inl (OSError q), s)
      | None \<Rightarrow>
          if q \<in> denied s then (Inl (OSError q), s)
          else mkdirs qs (s\<lparr>nodes := (nodes s)(q \<mapsto> Dir)\<rparr>))"

fun inits :: "path \<Rightarrow> path list" where
  "inits [] = []"
| "inits (c # cs) = [c] # map ((#) c) (inits cs)"

definition mkdir_p :: "path \<Rightarrow> (unit, 'x) io" where
  "mkdir_p p s = (if has_nul p then (Inl ValueError, s) else mkdirs (inits p) s)"

definition exists_path :: "path \<Rightarrow> (bool, 'x) io" where
  "exists_path p s = (Inr (\<not> has_nul p \<and> nodes s p \<noteq> None), s)"

definition old_content :: "'x state \<Rightarrow> path \<Rightarrow> chunk list" where
  "old_content s p = (case nodes s p of Some (File cs) \<Rightarrow> cs | _ \<Rightarrow> [])"

text \<open>Opening a file for writing (\<open>keep = False\<close>: mode \<open>w\<close>, the old content is
  dropped; \<open>keep = True\<close>: mode \<open>a\<close>) and writing the pieces. It raises when the path
  has a NUL byte, when it is a directory, when the parent is not a directory, or when
  the system refuses.\<close>

definition open_write :: "bool \<Rightarrow> path \<Rightarrow> chunk list \<Rightarrow> (unit, 'x) io" where
  "open_write keep p cs s =
     (if has_nul p then (Inl ValueError, s)
      else if is_dir s p \<or> \<not> is_dir s (butlast p) \<or> p \<in> denied s
      then (Inl (OSError p), s)
      else (Inr (),
            s\<lparr>nodes := (nodes s)(p \<mapsto> File ((if keep then old_content s p else []) @ cs))\<rparr>))"

definition write_text :: "path \<Rightarrow> chunk list \<Rightarrow> (unit, 'x) io" where
  "write_text p cs = open_write False p cs"

definition append_text :: "path \<Rightarrow> chunk list \<Rightarrow> (unit, 'x) io" where
  "append_text p cs = open_write True p cs"

definition read_text :: "path \<Rightarrow> (chunk list, 'x) io" where
  "read_text p s =
     (if has_nul p then (Inl ValueError, s)
      else if is_dir s p then (Inl (OSError p), s)
      else (case nodes s p of
              Some (File cs) \<Rightarrow> (Inr cs, s)
            | _ \<Rightarrow> (Inl (OSError p), s)))"

text \<open>\<open>json.loads\<close>: a file that holds exactly one dumped value parses to that value.\<close>

fun json_loads :: "chunk list \<Rightarrow> exn + json" where
  "json_loads [Json j] = Inr j"
| "json_loads _ = Inl JSONDecodeError"

subsection \<open>The request, the collaborators and the handler\<close>

record DecisionReq =
  minutes :: int
  t_low :: float
  t_high :: float
  dt_min :: int
  cooldown :: int
  targetRU :: string
  expire_minutes :: int
  confidence :: float
  dry_run :: bool
  idempotency_key :: "string option"

text \<open>What \<open>main.py\<close> imports and reads from its surroundings: the two paths taken
  from the process environment, \<open>hashlib.sha256(...).hexdigest()\<close>, and the six
  collaborators of the modules \<open>src.pm_adapter\<close>, \<open>src.etl\<close>, \<open>src.lstm_multi\<close>,
  \<open>src.decision\<close> and \<open>src.policy_adapter\<close>. A collaborator may read and write the
  whole state and may raise.\<close>

record 'x env =
  MODEL_PATH :: string
  META_PATH :: string
  sha256_hex :: "string \<Rightarrow> string"
  fetch_pm :: "string option \<Rightarrow> string option \<Rightarrow> (string, 'x) io"
  run_etl :: "string \<Rightarrow> (string, 'x) io"
  predict_next_window :: "string \<Rightarrow> string \<Rightarrow> string \<Rightarrow> string \<Rightarrow> (string, 'x) io"
  decide :: "string \<Rightarrow> float \<Rightarrow> float \<Rightarrow> int \<Rightarrow> int \<Rightarrow> (string, 'x) io"
  build_policy :: "json \<Rightarrow> string \<Rightarrow> int \<Rightarrow> float \<Rightarrow> (json, 'x) io"
  post_policy :: "json \<Rightarrow> (json, 'x) io"

definition idem_dir :: path where
  "idem_dir = [''data'', ''idempotency'']"

definition processed_dir :: path where
  "processed_dir = [''data'', ''processed'']"

definition payload_path :: path where
  "payload_path = [''data'', ''processed'', ''policy_payload.json'']"

definition audit_dir :: path where
  "audit_dir = [''data'', ''audit'']"

definition logs_dir :: path where
  "logs_dir = [''logs'']"

definition log_path :: path where
  "log_path = [''logs'', ''decision_log.jsonl'']"

text \<open>Section 0 of the handler (lines 84 to 89), in its two steps: the look-up
  (\<open>mkdir\<close>, then \<open>idem_flag.exists()\<close>) and the later \<open>idem_flag.write_text\<close>.\<close>

definition idem_flag :: "'x env \<Rightarrow> string \<Rightarrow> path" where
  "idem_flag env k = idem_dir @ path_of (sha256_hex env k @ ''.flag'')"

definition idem_check :: "'x env \<Rightarrow> string \<Rightarrow> (bool, 'x) io" where
  "idem_check env k = seq (mkdir_p idem_dir) (\<lambda>_. exists_path (idem_flag env k))"

definition idem_set :: "'x env \<Rightarrow> datetime \<Rightarrow> string \<Rightarrow> (unit, 'x) io" where
  "idem_set env t k = write_text (idem_flag env k) [Text (isoformat t)]"

definition duplicate_response :: "string \<Rightarrow> json" where
  "duplicate_response k =
     JObj [(''error'', JStr ''duplicate idempotency_key''), (''idempotency_key'', JStr k)]"

text \<open>Section 4 (lines 115 to 124): the dry run writes the payload itself and never
  calls \<open>post_policy\<close>.\<close>

definition dry_run_result :: json where
  "dry_run_result =
     JObj [(''sent'', JBool False), (''dry_run'', JBool True),
           (''saved_to'', JStr ''data/processed/policy_payload.json'')]"

definition dispatch :: "'x env \<Rightarrow> DecisionReq \<Rightarrow> json \<Rightarrow> (json, 'x) io" where
  "dispatch env req payload =
     (if dry_run req then
        seq (mkdir_p processed_dir) (\<lambda>_.
        seq (write_text payload_path [Json payload]) (\<lambda>_.
        ret dry_run_result))
      else post_policy env payload)"

text \<open>Section 5 (lines 127 to 163): the audit entry, the log line, the response.\<close>

definition audit_id_of :: "datetime \<Rightarrow> DecisionReq \<Rightarrow> string" where
  "audit_id_of t req = strftime t @ ''-'' @ targetRU req @ ''-a87''"

definition audit_path :: "string \<Rightarrow> path" where
  "audit_path audit_id = audit_dir @ path_of (audit_id @ ''.json'')"

definition opt_str :: "string option \<Rightarrow> json" where
  "opt_str v = (case v of None \<Rightarrow> JNull | Some k \<Rightarrow> JStr k)"

definition request_dict :: "DecisionReq \<Rightarrow> json" where
  "request_dict req =
     JObj [(''t_low'', JFloat (t_low req)), (''t_high'', JFloat (t_high req)),
           (''dt_min'', JInt (dt_min req)), (''cooldown'', JInt (cooldown req)),
           (''targetRU'', JStr (targetRU req)), (''dry_run'', JBool (dry_run req)),
           (''expire_minutes'', JInt (expire_minutes req)),
           (''confidence'', JFloat (confidence req)),
           (''idempotency_key'', opt_str (idempotency_key req))]"

definition audit_entry :: "datetime \<Rightarrow> DecisionReq \<Rightarrow> json \<Rightarrow> json \<Rightarrow> json \<Rightarrow> json" where
  "audit_entry t req decision_dict payload push_res =
     JObj [(''audit_id'', JStr (audit_id_of t req)),
           (''ts'', JStr (strftime t)),
           (''request'', request_dict req),
           (''decision'', decision_dict),
           (''policy_payload'', payload),
           (''push_result'', push_res)]"

definition log_line :: "datetime \<Rightarrow> DecisionReq \<Rightarrow> json \<Rightarrow> json \<Rightarrow> json \<Rightarrow> json \<Rightarrow> json" where
  "log_line t req action reason mode_after sent =
     JObj [(''ts'', JStr (strftime t)),
           (''targetRU'', JStr (targetRU req)),
           (''decision'', action),
           (''reason'', reason),
           (''mode_after'', mode_after),
           (''push_sent'', JBool (py_bool sent))]"

definition response :: "datetime \<Rightarrow> DecisionReq \<Rightarrow> json \<Rightarrow> json \<Rightarrow> json \<Rightarrow> json" where
  "response t req decision_dict payload push_res =
     JObj [(''audit_id'', JStr (audit_id_of t req)),
           (''decision'', decision_dict),
           (''policy_payload'', payload),
           (''push_result'', push_res)]"

text \<open>Lines 127 to 143: the audit entry is written with \<open>write_text\<close>, which
  replaces a file of the same name.\<close>

definition write_audit ::
  "datetime \<Rightarrow> DecisionReq \<Rightarrow> json \<Rightarrow> json \<Rightarrow> json \<Rightarrow> (unit, 'x) io" where
  "write_audit t req decision_dict payload push_res =
     seq (mkdir_p audit_dir) (\<lambda>_.
     write_text (audit_path (audit_id_of t req))
       [Json (audit_entry t req decision_dict payload push_res)])"

text \<open>Lines 146 to 156: one line is appended to the log.\<close>

definition append_log ::
  "datetime \<Rightarrow> DecisionReq \<Rightarrow> json \<Rightarrow> json \<Rightarrow> (unit, 'x) io" where
  "append_log t req decision_dict push_res =
     seq (mkdir_p logs_dir) (\<lambda>_.
     seq (lift (py_get decision_dict ''action'')) (\<lambda>action.
     seq (lift (py_get decision_dict ''reason'')) (\<lambda>reason.
     seq (lift (py_get decision_dict ''mode_after'')) (\<lambda>mode_after.
     seq (lift (py_get push_res ''sent'')) (\<lambda>sent.
     append_text log_path
       [Json (log_line t req action reason mode_after sent), Text [CHR 0x0A]])))))"

definition audit_and_log ::
  "datetime \<Rightarrow> DecisionReq \<Rightarrow> json \<Rightarrow> json \<Rightarrow> json \<Rightarrow> (json, 'x) io" where
  "audit_and_log t req decision_dict payload push_res =
     seq (write_audit t req decision_dict payload push_res) (\<lambda>_.
     seq (append_log t req decision_dict push_res) (\<lambda>_.
     ret (response t req decision_dict payload push_res)))"

text \<open>Sections 1 to 3 (lines 92 to 112): the forecast, the decision, the payload.\<close>

definition compute :: "'x env \<Rightarrow> DecisionReq \<Rightarrow> (json \<times> json, 'x) io" where
  "compute env req =
     seq (fetch_pm env None None) (\<lambda>raw_path.
     seq (run_etl env raw_path) (\<lambda>feat_path.
     seq (predict_next_window env feat_path (MODEL_PATH env) (META_PATH env)
            ''data/processed/forecast.csv'') (\<lambda>fcst_path.
     seq (decide env fcst_path (t_low req) (t_high req) (dt_min req) (cooldown req)) (\<lambda>dec_path.
     seq (read_text (path_of dec_path)) (\<lambda>txt.
     seq (lift (json_loads txt)) (\<lambda>decision_dict.
     seq (build_policy env decision_dict (targetRU req) (expire_minutes req)
            (confidence req)) (\<lambda>payload.
     ret (decision_dict, payload))))))))"

text \<open>Sections 1 to 5: what runs once the guard has let the request through.\<close>

definition pipeline :: "'x env \<Rightarrow> clock \<Rightarrow> DecisionReq \<Rightarrow> (json, 'x) io" where
  "pipeline env clk req =
     seq (compute env req) (\<lambda>(decision_dict, payload).
     seq (dispatch env req payload) (\<lambda>push_res.
     audit_and_log (now_audit clk) req decision_dict payload push_res))"

text \<open>Section 0 as a whole. \<open>if req.idempotency_key:\<close> is false for \<open>None\<close> and for
  the empty string. The outcome is the early return value, if there is one.\<close>

definition idem_guard :: "'x env \<Rightarrow> datetime \<Rightarrow> DecisionReq \<Rightarrow> (json option, 'x) io" where
  "idem_guard env t req =
     (case idempotency_key req of
        None \<Rightarrow> ret None
      | Some k \<Rightarrow>
          if k = [] then ret None
          else
            seq (idem_check env k) (\<lambda>found.
            if found then ret (Some (duplicate_response k))
            else seq (idem_set env t k) (\<lambda>_. ret None)))"

text \<open>The handler.\<close>

definition decision :: "'x env \<Rightarrow> clock \<Rightarrow> DecisionReq \<Rightarrow> (json, 'x) io" where
  "decision env clk req =
     seq (idem_guard env (now_flag clk) req) (\<lambda>early.
     case early of
       Some r \<Rightarrow> ret r
     | None \<Rightarrow> pipeline env clk req)"


subsection \<open>Two requests inside the guard at the same time\<close>

text \<open>The endpoint is a plain \<open>def\<close>, which the framework runs on a thread pool, so two
  calls can be inside section 0 together. Each call is at one of these points; a step
  runs the look-up of lines 85 to 87 or the write of line 89 of one call on the shared
  file system.\<close>

datatype pc = AtCheck | AtSet | Passed | Rejected | Crashed exn

definition guard_step :: "'x env \<Rightarrow> datetime \<Rightarrow> string \<Rightarrow> pc \<Rightarrow> 'x state \<Rightarrow> pc \<times> 'x state" where
  "guard_step env t k at s =
     (case at of
        AtCheck \<Rightarrow>
          (case idem_check env k s of
             (Inl e, s') \<Rightarrow> (Crashed e, s')
           | (Inr found, s') \<Rightarrow> (if found then Rejected else AtSet, s'))
      | AtSet \<Rightarrow>
          (case idem_set env t k s of
             (Inl e, s') \<Rightarrow> (Crashed e, s')
           | (Inr u, s') \<Rightarrow> (Passed, s'))
      | _ \<Rightarrow> (at, s))"

text \<open>A schedule names, step by step, which of the two calls moves (\<open>False\<close>: the
  first, \<open>True\<close>: the second).\<close>

fun interleave ::
  "'x env \<Rightarrow> datetime \<times> string \<Rightarrow> datetime \<times> string \<Rightarrow> bool list \<Rightarrow>
   pc \<times> pc \<times> 'x state \<Rightarrow> pc \<times> pc \<times> 'x state" where
  "interleave env a b [] c = c"
| "interleave env a b (w # ws) (pa, pb, s) =
     (if w then
        (case guard_step env (fst b) (snd b) pb s of
           (pb', s') \<Rightarrow> interleave env a b ws (pa, pb', s'))
      else
        (case guard_step env (fst a) (snd a) pa s of
           (pa', s') \<Rightarrow> interleave env a b ws (pa', pb, s')))"

subsection \<open>What the collaborators leave alone\<close>

text \<open>The handler keeps three places to itself: the idempotency flags, the audit
  entries and the log. A collaborator keeps its hands off them when it leaves every path below
  them as it found it and does not remove the directory \<open>data\<close>.\<close>

definition owned :: "path \<Rightarrow> bool" where
  "owned p \<longleftrightarrow> take 2 p = idem_dir \<or> take 2 p = audit_dir \<or> take 1 p = logs_dir"

definition hands_off :: "('a, 'x) io \<Rightarrow> bool" where
  "hands_off m \<longleftrightarrow>
     (\<forall>s. (\<forall>p. owned p \<longrightarrow> nodes (snd (m s)) p = nodes s p) \<and>
          (nodes s [''data''] = Some Dir \<longrightarrow> nodes (snd (m s)) [''data''] = Some Dir))"

definition frame :: "'x env \<Rightarrow> bool" where
  "frame env \<longleftrightarrow>
     (\<forall>a b. hands_off (fetch_pm env a b)) \<and>
     (\<forall>a. hands_off (run_etl env a)) \<and>
     (\<forall>a b c d. hands_off (predict_next_window env a b c d)) \<and>
     (\<forall>a b c d e. hands_off (decide env a b c d e)) \<and>
     (\<forall>a b c d. hands_off (build_policy env a b c d)) \<and>
     (\<forall>a. hands_off (post_policy env a))"

text \<open>\<open>touches W s s'\<close>: going from \<open>s\<close> to \<open>s'\<close>, the directory \<open>data\<close> stays a
  directory, and below the handler's own places no directory and no file disappears and
  nothing outside \<open>W\<close> changes at all. \<open>within W m\<close>: every run of \<open>m\<close> is such a step.\<close>

definition touches :: "path set \<Rightarrow> 'x state \<Rightarrow> 'x state \<Rightarrow> bool" where
  "touches W s s' \<longleftrightarrow>
     (nodes s [''data''] = Some Dir \<longrightarrow> nodes s' [''data''] = Some Dir) \<and>
     (\<forall>p. owned p \<longrightarrow>
          (nodes s p = Some Dir \<longrightarrow> nodes s' p = Some Dir) \<and>
          (nodes s p \<noteq> None \<longrightarrow> nodes s' p \<noteq> None) \<and>
          (p \<notin> W \<longrightarrow> nodes s' p = nodes s p))"

definition within :: "path set \<Rightarrow> ('a, 'x) io \<Rightarrow> bool" where
  "within W m \<longleftrightarrow> (\<forall>s. touches W s (snd (m s)))"

text \<open>The key \<open>k\<close> has been used: its flag is there, in its directory, for
  \<open>idem_flag.exists()\<close> to find.\<close>

definition flagged :: "'x env \<Rightarrow> string \<Rightarrow> 'x state \<Rightarrow> bool" where
  "flagged env k s \<longleftrightarrow>
     nodes s [''data''] = Some Dir \<and> nodes s idem_dir = Some Dir \<and>
     \<not> has_nul (idem_flag env k) \<and> nodes s (idem_flag env k) \<noteq> None"

text \<open>The paths the handler itself may write in its places while it serves a request.\<close>

definition guard_writes :: "'x env \<Rightarrow> DecisionReq \<Rightarrow> path set" where
  "guard_writes env req =
     (case idempotency_key req of
        None \<Rightarrow> {}
      | Some k \<Rightarrow> {idem_dir, idem_flag env k})"


text \<open>Two states that agree everywhere except, possibly, at the path \<open>q\<close>; and an
  operation that cannot tell such states apart.\<close>

definition agree_off :: "path \<Rightarrow> 'x state \<Rightarrow> 'x state \<Rightarrow> bool" where
  "agree_off q s s' \<longleftrightarrow>
     denied s' = denied s \<and> ext s' = ext s \<and> (\<forall>p. p \<noteq> q \<longrightarrow> nodes s' p = nodes s p)"

definition blind_to :: "path \<Rightarrow> ('a, 'x) io \<Rightarrow> bool" where
  "blind_to q m \<longleftrightarrow>
     (\<forall>s s'. agree_off q s s' \<longrightarrow>
        fst (m s') = fst (m s) \<and> agree_off q (snd (m s)) (snd (m s')))"

text \<open>How a call that went through the two steps of the guard alone comes out.\<close>

fun guard_outcome :: "string \<Rightarrow> pc \<Rightarrow> (exn + json option) option" where
  "guard_outcome k Passed = Some (Inr None)"
| "guard_outcome k Rejected = Some (Inr (Some (duplicate_response k)))"
| "guard_outcome k (Crashed e) = Some (Inl e)"
| "guard_outcome k _ = None"

subsection \<open>Sample data\<close>

text \<open>A small deployment on which the statements below are exercised: collaborators
  that return fixed values, of which \<open>decide\<close> writes its decision file, an empty file
  system, and requests built from the defaults of \<open>DecisionReq\<close>. The digest of
  \<open>abc\<close> is its SHA-256.\<close>

definition sample_sha :: "string \<Rightarrow> string" where
  "sample_sha k =
     (if k = ''abc'' then ''ba7816bf8f01cfea414140de5dae2223b00361a396177a9cb410ff61f20015ad''
      else ''e3b0c44298fc1c149afbf4c8996fb92427ae41e4649b934ca495991b7852b855'')"

definition sample_decision :: json where
  "sample_decision =
     JObj [(''action'', JStr ''hold''), (''reason'', JStr ''dead_zone''),
           (''mode_after'', JStr ''normal'')]"

definition sample_decide :: "string \<Rightarrow> float \<Rightarrow> float \<Rightarrow> int \<Rightarrow> int \<Rightarrow> (string, unit) io" where
  "sample_decide fc lo hi dt cd =
     seq (mkdir_p processed_dir) (\<lambda>_.
     seq (write_text [''data'', ''processed'', ''decision.json''] [Json sample_decision]) (\<lambda>_.
     ret ''data/processed/decision.json''))"

definition sample_payload :: "string \<Rightarrow> int \<Rightarrow> json" where
  "sample_payload ru em = JObj [(''target_ru'', JStr ru), (''expire_minutes'', JInt em)]"

definition sample_push :: json where
  "sample_push = JObj [(''sent'', JBool True)]"

definition sample_env :: "unit env" where
  "sample_env =
     \<lparr> MODEL_PATH = ''models/model.onnx'', META_PATH = ''models/model_meta.json'',
       sha256_hex = sample_sha,
       fetch_pm = (\<lambda>a b. ret ''data/raw/raw.csv''),
       run_etl = (\<lambda>raw. ret ''data/processed/features.csv''),
       predict_next_window = (\<lambda>feat onnx meta out. ret out),
       decide = sample_decide,
       build_policy = (\<lambda>d ru em c. ret (sample_payload ru em)),
       post_policy = (\<lambda>p. ret sample_push) \<rparr>"

text \<open>The same deployment with a \<open>decide\<close> that rejects the forecast.\<close>

definition invalid_env :: "unit env" where
  "invalid_env =
     sample_env\<lparr> decide := (\<lambda>fc lo hi dt cd. lift (Inl (Raised ''InvalidForecast''))) \<rparr>"

text \<open>The same deployment with a \<open>post_policy\<close> that raises instead of reporting.\<close>

definition offline_env :: "unit env" where
  "offline_env =
     sample_env\<lparr> post_policy := (\<lambda>p. lift (Inl (Raised ''ConnectionError''))) \<rparr>"

definition fresh :: "unit state" where
  "fresh = \<lparr> nodes = Map.empty, denied = {}, ext = () \<rparr>"

definition at_second :: "nat \<Rightarrow> nat \<Rightarrow> datetime" where
  "at_second sec us =
     \<lparr> year = 2026, month = 11, day = 4, hour = 7, minute = 21, second = sec,
       microsecond = us \<rparr>"

definition sample_clock :: clock where
  "sample_clock = \<lparr> now_flag = at_second 5 250000, now_audit = at_second 5 500000 \<rparr>"

definition later_clock :: clock where
  "later_clock = \<lparr> now_flag = at_second 5 750000, now_audit = at_second 5 900000 \<rparr>"

definition next_clock :: clock where
  "next_clock = \<lparr> now_flag = at_second 6 100000, now_audit = at_second 6 300000 \<rparr>"

definition plain_req :: DecisionReq where
  "plain_req =
     \<lparr> minutes = 1440, t_low = 0x3FD0000000000000, t_high = 0x3FE0000000000000,
       dt_min = 10, cooldown = 20, targetRU = ''RU_001'', expire_minutes = 30,
       confidence = 0x3FE999999999999A, dry_run = False, idempotency_key = None \<rparr>"

definition keyed_req :: DecisionReq where
  "keyed_req = plain_req\<lparr> idempotency_key := Some ''abc'' \<rparr>"

definition dry_req :: DecisionReq where
  "dry_req = plain_req\<lparr> dry_run := True \<rparr>"

definition empty_key_req :: DecisionReq where
  "empty_key_req = plain_req\<lparr> idempotency_key := Some [] \<rparr>"

text \<open>A request whose target has a NUL byte in it.\<close>

definition nul_req :: DecisionReq where
  "nul_req = plain_req\<lparr> targetRU := [CHR ''a'', CHR 0x00, CHR ''b''] \<rparr>"

text \<open>File systems that refuse the audit directory, or the dry-run payload file.\<close>

definition audit_locked :: "unit state" where
  "audit_locked = fresh\<lparr> denied := {audit_dir} \<rparr>"

definition payload_locked :: "unit state" where
  "payload_locked = fresh\<lparr> denied := {payload_path} \<rparr>"

section \<open>Properties\<close>

subsection \<open>Sequencing and the file system\<close>

lemma seq_InrD:
  assumes "seq m f s = (Inr r, s')"
  obtains a s1 where "m s = (Inr a, s1)" and "f a s1 = (Inr r, s')"
  using assms by (auto simp: seq_def split: prod.splits sum.splits)

lemma seq_Inr: "m s = (Inr a, s1) \<Longrightarrow> seq m f s = f a s1"
  by (simp add: seq_def)

lemma seq_Inl: "m s = (Inl e, s1) \<Longrightarrow> seq m f s = (Inl e, s1)"
  by (simp add: seq_def)

lemma mkdirs_fields: "mkdirs qs s = (r, s') \<Longrightarrow> denied s' = denied s \<and> ext s' = ext s"
  by (induction qs arbitrary: s) (auto split: option.splits node.splits if_splits)

lemma mkdirs_keeps: "mkdirs qs s = (r, s') \<Longrightarrow> nodes s p \<noteq> None \<Longrightarrow> nodes s' p = nodes s p"
proof (induction qs arbitrary: s)
  case Nil
  then show ?case by simp
next
  case (Cons q qs)
  show ?case
  proof (cases "nodes s q")
    case None
    with Cons.prems have run: "mkdirs qs (s\<lparr>nodes := (nodes s)(q \<mapsto> Dir)\<rparr>) = (r, s') \<or> s' = s"
      by (auto split: if_splits)
    from None Cons.prems have "p \<noteq> q" by auto
    with run Cons.IH[of "s\<lparr>nodes := (nodes s)(q \<mapsto> Dir)\<rparr>"] Cons.prems show ?thesis by auto
  next
    case (Some n)
    with Cons show ?thesis by (cases n) auto
  qed
qed

lemma mkdirs_new:
  "mkdirs qs s = (r, s') \<Longrightarrow> nodes s p = None \<Longrightarrow> nodes s' p \<noteq> None \<Longrightarrow>
     nodes s' p = Some Dir \<and> p \<in> set qs"
proof (induction qs arbitrary: s)
  case Nil
  then show ?case by simp
next
  case (Cons q qs)
  show ?case
  proof (cases "nodes s q")
    case None
    show ?thesis
    proof (cases "q \<in> denied s")
      case True
      with None Cons.prems show ?thesis by simp
    next
      case False
      let ?s1 = "s\<lparr>nodes := (nodes s)(q \<mapsto> Dir)\<rparr>"
      from None False Cons.prems have run: "mkdirs qs ?s1 = (r, s')" by simp
      show ?thesis
      proof (cases "p = q")
        case True
        with mkdirs_keeps[OF run, of q] show ?thesis by simp
      next
        case False
        with Cons.IH[OF run] Cons.prems show ?thesis by simp
      qed
    qed
  next
    case (Some n)
    with Cons show ?thesis by (cases n) auto
  qed
qed


lemma mkdirs_ok_dirs:
  "mkdirs qs s = (Inr u, s') \<Longrightarrow> \<forall>q \<in> set qs. nodes s' q = Some Dir"
proof (induction qs arbitrary: s)
  case Nil
  then show ?case by simp
next
  case (Cons q qs)
  show ?case
  proof (cases "nodes s q")
    case None
    with Cons.prems have nd: "q \<notin> denied s" and run: "mkdirs qs (s\<lparr>nodes := (nodes s)(q \<mapsto> Dir)\<rparr>) = (Inr u, s')"
      by (auto split: if_splits)
    from mkdirs_keeps[OF run, of q] have "nodes s' q = Some Dir" by simp
    with Cons.IH[OF run] show ?thesis by simp
  next
    case (Some n)
    show ?thesis
    proof (cases n)
      case Dir
      with Some Cons.prems have run: "mkdirs qs s = (Inr u, s')" by simp
      from mkdirs_keeps[OF run, of q] Some Dir have "nodes s' q = Some Dir" by simp
      with Cons.IH[OF run] show ?thesis by simp
    next
      case (File cs)
      with Some Cons.prems show ?thesis by simp
    qed
  qed
qed

lemma mkdirs_other: "mkdirs qs s = (r, s') \<Longrightarrow> p \<notin> set qs \<Longrightarrow> nodes s' p = nodes s p"
proof (cases "nodes s p")
  case None
  assume run: "mkdirs qs s = (r, s')" and out: "p \<notin> set qs"
  from mkdirs_new[OF run None] out have "nodes s' p = None" by blast
  with None show ?thesis by simp
next
  case (Some n)
  assume run: "mkdirs qs s = (r, s')"
  from mkdirs_keeps[OF run] Some show ?thesis by simp
qed

lemma mkdirs_dir: "mkdirs qs s = (r, s') \<Longrightarrow> nodes s p = Some Dir \<Longrightarrow> nodes s' p = Some Dir"
  using mkdirs_keeps[of qs s r s' p] by simp

lemma mkdirs_Inl: "mkdirs qs s = (Inl e, s') \<Longrightarrow> \<exists>q. e = OSError q"
  by (induction qs arbitrary: s) (auto split: option.splits node.splits if_splits)

lemma mkdir_p_known:
  "mkdir_p idem_dir = mkdirs (inits idem_dir)"
  "mkdir_p processed_dir = mkdirs (inits processed_dir)"
  "mkdir_p audit_dir = mkdirs (inits audit_dir)"
  "mkdir_p logs_dir = mkdirs (inits logs_dir)"
  by (simp_all add: mkdir_p_def has_nul_def fun_eq_iff idem_dir_def processed_dir_def
        audit_dir_def logs_dir_def)

lemma open_write_Inr:
  "open_write b p cs s = (Inr u, s') \<Longrightarrow>
     s' = s\<lparr>nodes := (nodes s)(p \<mapsto> File ((if b then old_content s p else []) @ cs))\<rparr> \<and>
     nodes s p \<noteq> Some Dir \<and> \<not> has_nul p"
  by (auto simp: open_write_def is_dir_def split: if_splits)

lemma open_write_Inl:
  "open_write b p cs s = (Inl e, s') \<Longrightarrow> s' = s \<and> (e = OSError p \<or> e = ValueError)"
  by (auto simp: open_write_def split: if_splits)

lemma touches_refl: "touches W s s"
  by (simp add: touches_def)

lemma touches_trans: "touches W s s1 \<Longrightarrow> touches W s1 s2 \<Longrightarrow> touches W s s2"
  unfolding touches_def by (intro conjI allI impI; metis)

lemma touches_mono: "touches V s s' \<Longrightarrow> V \<subseteq> W \<Longrightarrow> touches W s s'"
  unfolding touches_def by blast

lemma within_mono: "within V m \<Longrightarrow> V \<subseteq> W \<Longrightarrow> within W m"
  unfolding within_def using touches_mono by blast

lemma within_seq: "within W m \<Longrightarrow> (\<And>a. within W (f a)) \<Longrightarrow> within W (seq m f)"
  unfolding within_def seq_def
proof (intro allI)
  fix s
  assume m: "\<forall>s. touches W s (snd (m s))" and f: "\<And>a. \<forall>s. touches W s (snd (f a s))"
  show "touches W s (snd (case m s of (Inl e, s') \<Rightarrow> (Inl e, s') | (Inr a, s') \<Rightarrow> f a s'))"
  proof (cases "m s")
    case (Pair r s1)
    with m have t1: "touches W s s1" by (metis snd_conv)
    show ?thesis
    proof (cases r)
      case (Inl e)
      with Pair t1 show ?thesis by simp
    next
      case (Inr a)
      from f[of a] have "touches W s1 (snd (f a s1))" by simp
      with t1 Pair Inr show ?thesis by (simp add: touches_trans)
    qed
  qed
qed

lemma within_ret: "within W (ret a)"
  by (simp add: within_def ret_def touches_refl)

lemma within_lift: "within W (lift r)"
  by (simp add: within_def lift_def touches_refl)

lemma within_exists: "within W (exists_path p)"
  by (simp add: within_def exists_path_def touches_refl)

lemma within_read: "within W (read_text p)"
  by (simp add: within_def read_text_def touches_refl split: option.splits node.splits)

lemma within_hands_off: "hands_off m \<Longrightarrow> within W m"
  by (simp add: within_def hands_off_def touches_def)

lemma within_mkdirs: "(\<And>q. q \<in> set qs \<Longrightarrow> owned q \<Longrightarrow> q \<in> W) \<Longrightarrow> within W (mkdirs qs)"
  unfolding within_def touches_def
proof (intro allI conjI impI)
  fix s :: "'a state"
  assume "nodes s [''data''] = Some Dir"
  then show "nodes (snd (mkdirs qs s)) [''data''] = Some Dir"
    using mkdirs_dir[of qs s "fst (mkdirs qs s)" "snd (mkdirs qs s)"] by simp
next
  fix s :: "'a state" and p
  assume "nodes s p = Some Dir"
  then show "nodes (snd (mkdirs qs s)) p = Some Dir"
    using mkdirs_dir[of qs s "fst (mkdirs qs s)" "snd (mkdirs qs s)"] by simp
next
  fix s :: "'a state" and p
  assume "nodes s p \<noteq> None"
  then show "nodes (snd (mkdirs qs s)) p \<noteq> None"
    using mkdirs_keeps[of qs s "fst (mkdirs qs s)" "snd (mkdirs qs s)" p] by simp
next
  fix s :: "'a state" and p
  assume w: "\<And>q. q \<in> set qs \<Longrightarrow> owned q \<Longrightarrow> q \<in> W" and "owned p" "p \<notin> W"
  then have "p \<notin> set qs" by blast
  then show "nodes (snd (mkdirs qs s)) p = nodes s p"
    using mkdirs_other[of qs s "fst (mkdirs qs s)" "snd (mkdirs qs s)" p] by simp
qed

lemma within_open_write: "(owned q \<Longrightarrow> q \<in> W) \<Longrightarrow> within W (open_write b q cs)"
  unfolding within_def touches_def open_write_def is_dir_def by auto

lemma owned_simps:
  "owned (idem_dir @ x)" "owned (audit_dir @ x)" "owned (logs_dir @ x)" "owned log_path"
  "owned idem_dir" "owned audit_dir" "owned logs_dir"
  "\<not> owned [''data'']" "\<not> owned processed_dir" "\<not> owned payload_path"
  by (simp_all add: owned_def idem_dir_def audit_dir_def logs_dir_def log_path_def processed_dir_def payload_path_def)

lemma within_idem_check: "idem_dir \<in> W \<Longrightarrow> within W (idem_check env k)"
  unfolding idem_check_def mkdir_p_known
  by (intro within_seq within_exists within_mkdirs)
     (auto simp: idem_dir_def owned_def audit_dir_def logs_dir_def)

lemma within_idem_set: "idem_flag env k \<in> W \<Longrightarrow> within W (idem_set env t k)"
  unfolding idem_set_def write_text_def by (intro within_open_write) simp

lemma within_idem_guard: "guard_writes env req \<subseteq> W \<Longrightarrow> within W (idem_guard env t req)"
  unfolding idem_guard_def guard_writes_def
  by (auto split: option.splits intro!: within_seq within_ret within_idem_check within_idem_set)

lemma within_compute: "frame env \<Longrightarrow> within W (compute env req)"
  unfolding compute_def frame_def
  by (intro within_seq within_ret within_lift within_read within_hands_off) simp_all

lemma within_dispatch: "frame env \<Longrightarrow> within W (dispatch env req payload)"
proof (cases "dry_run req")
  case True
  have "within W (seq (mkdirs (inits processed_dir)) (\<lambda>_.
          seq (open_write False payload_path [Json payload]) (\<lambda>_. ret dry_run_result)))"
    by (intro within_seq within_ret within_mkdirs within_open_write)
       (auto simp: owned_def processed_dir_def payload_path_def idem_dir_def audit_dir_def logs_dir_def)
  with True show ?thesis by (simp add: dispatch_def mkdir_p_known write_text_def)
next
  case False
  assume "frame env"
  with False show ?thesis by (simp add: dispatch_def frame_def within_hands_off)
qed






subsection \<open>The guard\<close>

lemma touches_flagged: "touches W s s' \<Longrightarrow> flagged env k s \<Longrightarrow> flagged env k s'"
  unfolding touches_def flagged_def idem_flag_def
  using owned_simps(1)[of "path_of (sha256_hex env k @ ''.flag'')"] owned_simps(5)
  by metis



lemma idem_check_Inr:
  assumes "idem_check env k s = (Inr found, s')"
  shows "nodes s' [''data''] = Some Dir \<and> nodes s' idem_dir = Some Dir \<and>
         found = (\<not> has_nul (idem_flag env k) \<and> nodes s' (idem_flag env k) \<noteq> None)"
proof -
  from assms obtain u s1 where mk: "mkdirs (inits idem_dir) s = (Inr u, s1)"
    and ex: "exists_path (idem_flag env k) s1 = (Inr found, s')"
    unfolding idem_check_def mkdir_p_known by (erule seq_InrD)
  from mkdirs_ok_dirs[OF mk] have "nodes s1 [''data''] = Some Dir" "nodes s1 idem_dir = Some Dir"
    by (simp_all add: idem_dir_def)
  with ex show ?thesis by (auto simp: exists_path_def)
qed

lemma idem_guard_Inr:
  assumes "idem_guard env t req s = (Inr early, s')"
    and "idempotency_key req = Some k" and "k \<noteq> []"
  shows "flagged env k s'"
proof -
  from assms obtain found s1 where chk: "idem_check env k s = (Inr found, s1)"
    and rest: "(if found then ret (Some (duplicate_response k))
                else seq (idem_set env t k) (\<lambda>_. ret None)) s1 = (Inr early, s')"
    by (auto simp: idem_guard_def elim: seq_InrD)
  note c = idem_check_Inr[OF chk]
  show ?thesis
  proof (cases found)
    case True
    with rest c show ?thesis by (simp add: ret_def flagged_def)
  next
    case False
    with rest obtain u s2 where w: "idem_set env t k s1 = (Inr u, s2)" and "s' = s2"
      by (auto elim!: seq_InrD simp: ret_def)
    from w have "s2 = s1\<lparr>nodes := (nodes s1)(idem_flag env k \<mapsto> File ([] @ [Text (isoformat t)]))\<rparr>"
      and nd: "nodes s1 (idem_flag env k) \<noteq> Some Dir" "\<not> has_nul (idem_flag env k)"
      unfolding idem_set_def write_text_def by (auto dest: open_write_Inr)
    with c \<open>s' = s2\<close> show ?thesis by (auto simp: flagged_def)
  qed
qed

lemma idem_guard_early:
  assumes "idem_guard env t req s = (Inr (Some r), s')"
  shows "\<exists>k. idempotency_key req = Some k \<and> k \<noteq> [] \<and> r = duplicate_response k"
  using assms
  by (auto simp: idem_guard_def ret_def split: option.splits if_splits elim!: seq_InrD)




subsection \<open>A request that runs to its end\<close>

lemma response_not_duplicate: "response t req d p r \<noteq> duplicate_response k"
  by (simp add: response_def duplicate_response_def)

lemma decision_Inr_cases:
  assumes "decision env clk req s = (Inr resp, s')"
  obtains (dup) k where "idempotency_key req = Some k" "k \<noteq> []" "resp = duplicate_response k"
  | (run) s1 s2 s3 d p r where
      "idem_guard env (now_flag clk) req s = (Inr None, s1)"
      "compute env req s1 = (Inr (d, p), s2)"
      "dispatch env req p s2 = (Inr r, s3)"
      "audit_and_log (now_audit clk) req d p r s3 = (Inr resp, s')"
proof -
  from assms obtain early s1 where g: "idem_guard env (now_flag clk) req s = (Inr early, s1)"
    and rest: "(case early of Some r \<Rightarrow> ret r | None \<Rightarrow> pipeline env clk req) s1 = (Inr resp, s')"
    unfolding decision_def by (erule seq_InrD)
  show thesis
  proof (cases early)
    case (Some r0)
    with rest have "resp = r0" by (simp add: ret_def)
    with g Some idem_guard_early[of env "now_flag clk" req s r0 s1] dup show thesis by auto
  next
    case None
    with rest have "pipeline env clk req s1 = (Inr resp, s')" by simp
    then obtain dp s2 where c: "compute env req s1 = (Inr dp, s2)"
      and rest2: "(case dp of (d, p) \<Rightarrow>
                     seq (dispatch env req p) (\<lambda>r. audit_and_log (now_audit clk) req d p r)) s2
                  = (Inr resp, s')"
      unfolding pipeline_def by (erule seq_InrD)
    obtain d p where dp: "dp = (d, p)" by (cases dp)
    with rest2 obtain r s3 where "dispatch env req p s2 = (Inr r, s3)"
      and "audit_and_log (now_audit clk) req d p r s3 = (Inr resp, s')"
      by (auto elim: seq_InrD)
    with g None c dp run show thesis by simp
  qed
qed

lemma write_audit_Inr:
  assumes "write_audit t req d p r s = (Inr u, s')"
  shows "nodes s' (audit_path (audit_id_of t req)) = Some (File [Json (audit_entry t req d p r)])"
    and "\<And>q. q \<notin> set (inits audit_dir) \<Longrightarrow> q \<noteq> audit_path (audit_id_of t req) \<Longrightarrow>
           nodes s' q = nodes s q"
proof -
  from assms obtain v s1 where mk: "mkdirs (inits audit_dir) s = (Inr v, s1)"
    and w: "open_write False (audit_path (audit_id_of t req)) [Json (audit_entry t req d p r)] s1
              = (Inr u, s')"
    unfolding write_audit_def mkdir_p_known write_text_def by (erule seq_InrD)
  from open_write_Inr[OF w]
  have s': "s' = s1\<lparr>nodes := (nodes s1)(audit_path (audit_id_of t req) \<mapsto>
                     File [Json (audit_entry t req d p r)])\<rparr>" by simp
  then show "nodes s' (audit_path (audit_id_of t req)) = Some (File [Json (audit_entry t req d p r)])"
    by simp
  fix q
  assume "q \<notin> set (inits audit_dir)" "q \<noteq> audit_path (audit_id_of t req)"
  with s' mkdirs_other[OF mk, of q] show "nodes s' q = nodes s q" by simp
qed

lemma write_audit_Inl:
  assumes "write_audit t req d p r s = (Inl e, s')"
  shows "((\<exists>q. e = OSError q) \<or> e = ValueError) \<and>
         (\<forall>q. q \<notin> set (inits audit_dir) \<longrightarrow> nodes s' q = nodes s q)"
proof (cases "mkdirs (inits audit_dir) s")
  case (Pair res s1)
  show ?thesis
  proof (cases res)
    case (Inl e1)
    with Pair assms have "e = e1" "s' = s1"
      by (simp_all add: write_audit_def mkdir_p_known seq_def)
    with Pair Inl mkdirs_Inl[of "inits audit_dir" s e1 s1] mkdirs_other[of "inits audit_dir" s res s1]
    show ?thesis by auto
  next
    case (Inr v)
    with Pair assms
    have "open_write False (audit_path (audit_id_of t req)) [Json (audit_entry t req d p r)] s1
            = (Inl e, s')"
      by (simp add: write_audit_def mkdir_p_known write_text_def seq_def)
    from open_write_Inl[OF this] Pair mkdirs_other[of "inits audit_dir" s res s1]
    show ?thesis by auto
  qed
qed

lemma append_log_Inr:
  assumes "append_log t req d r s = (Inr u, s')"
  shows "\<exists>a b c e. py_get d ''action'' = Inr a \<and> py_get d ''reason'' = Inr b \<and>
           py_get d ''mode_after'' = Inr c \<and> py_get r ''sent'' = Inr e \<and>
           nodes s' log_path =
             Some (File (old_content s log_path @ [Json (log_line t req a b c e), Text [CHR 0x0A]]))"
    and "\<And>q. q \<notin> set (inits logs_dir) \<Longrightarrow> q \<noteq> log_path \<Longrightarrow> nodes s' q = nodes s q"
proof -
  from assms obtain v s1 where mk: "mkdirs (inits logs_dir) s = (Inr v, s1)"
    and rest: "seq (lift (py_get d ''action'')) (\<lambda>action.
               seq (lift (py_get d ''reason'')) (\<lambda>reason.
               seq (lift (py_get d ''mode_after'')) (\<lambda>mode_after.
               seq (lift (py_get r ''sent'')) (\<lambda>sent.
               append_text log_path
                 [Json (log_line t req action reason mode_after sent), Text [CHR 0x0A]])))) s1
               = (Inr u, s')"
    unfolding append_log_def mkdir_p_known by (erule seq_InrD)
  from rest obtain a b c e where g: "py_get d ''action'' = Inr a" "py_get d ''reason'' = Inr b"
      "py_get d ''mode_after'' = Inr c" "py_get r ''sent'' = Inr e"
    and w: "open_write True log_path [Json (log_line t req a b c e), Text [CHR 0x0A]] s1 = (Inr u, s')"
    unfolding append_text_def by (auto elim!: seq_InrD simp: lift_def)
  have same: "nodes s1 log_path = nodes s log_path"
    by (rule mkdirs_other[OF mk]) (simp add: logs_dir_def log_path_def)
  from open_write_Inr[OF w]
  have s': "s' = s1\<lparr>nodes := (nodes s1)(log_path \<mapsto>
              File (old_content s1 log_path @ [Json (log_line t req a b c e), Text [CHR 0x0A]]))\<rparr>"
    by simp
  from same have "old_content s1 log_path = old_content s log_path" by (simp add: old_content_def)
  with s' g
  show "\<exists>a b c e. py_get d ''action'' = Inr a \<and> py_get d ''reason'' = Inr b \<and>
           py_get d ''mode_after'' = Inr c \<and> py_get r ''sent'' = Inr e \<and>
           nodes s' log_path =
             Some (File (old_content s log_path @ [Json (log_line t req a b c e), Text [CHR 0x0A]]))"
    by auto
  fix q
  assume "q \<notin> set (inits logs_dir)" "q \<noteq> log_path"
  with s' mkdirs_other[OF mk, of q] show "nodes s' q = nodes s q" by simp
qed

lemma audit_path_simps:
  "audit_path i \<notin> set (inits logs_dir)" "audit_path i \<noteq> log_path"
  "audit_path i \<noteq> payload_path" "audit_path i \<noteq> [''data'']" "take 2 (audit_path i) = audit_dir"
  by (auto simp: audit_path_def audit_dir_def logs_dir_def log_path_def payload_path_def)

lemma audit_and_log_Inr:
  assumes "audit_and_log t req d p r s = (Inr resp, s')"
  shows "resp = response t req d p r"
    and "nodes s' (audit_path (audit_id_of t req)) = Some (File [Json (audit_entry t req d p r)])"
    and "\<exists>a b c e. py_get d ''action'' = Inr a \<and> py_get d ''reason'' = Inr b \<and>
           py_get d ''mode_after'' = Inr c \<and> py_get r ''sent'' = Inr e \<and>
           nodes s' log_path =
             Some (File (old_content s log_path @ [Json (log_line t req a b c e), Text [CHR 0x0A]]))"
    and "\<And>q. q \<notin> set (inits audit_dir) \<Longrightarrow> q \<noteq> audit_path (audit_id_of t req) \<Longrightarrow>
           q \<notin> set (inits logs_dir) \<Longrightarrow> q \<noteq> log_path \<Longrightarrow> nodes s' q = nodes s q"
proof -
  from assms obtain u s1 where wa: "write_audit t req d p r s = (Inr u, s1)"
    and rest: "seq (append_log t req d r) (\<lambda>_. ret (response t req d p r)) s1 = (Inr resp, s')"
    unfolding audit_and_log_def by (erule seq_InrD)
  from rest obtain v where al: "append_log t req d r s1 = (Inr v, s')"
    and resp: "resp = response t req d p r"
    by (auto elim!: seq_InrD simp: ret_def)
  show "resp = response t req d p r" by (rule resp)
  note a = write_audit_Inr[OF wa] and l = append_log_Inr[OF al]
  have "nodes s' (audit_path (audit_id_of t req)) = nodes s1 (audit_path (audit_id_of t req))"
    by (rule l(2)) (simp_all add: audit_path_simps)
  with a(1) show "nodes s' (audit_path (audit_id_of t req)) = Some (File [Json (audit_entry t req d p r)])"
    by simp
  have "nodes s1 log_path = nodes s log_path"
    by (rule a(2)) (insert audit_path_simps(2)[of "audit_id_of t req"],
                    auto simp: audit_dir_def log_path_def)
  then have "old_content s1 log_path = old_content s log_path" by (simp add: old_content_def)
  with l(1) show "\<exists>a b c e. py_get d ''action'' = Inr a \<and> py_get d ''reason'' = Inr b \<and>
           py_get d ''mode_after'' = Inr c \<and> py_get r ''sent'' = Inr e \<and>
           nodes s' log_path =
             Some (File (old_content s log_path @ [Json (log_line t req a b c e), Text [CHR 0x0A]]))"
    by simp
  fix q
  assume "q \<notin> set (inits audit_dir)" "q \<noteq> audit_path (audit_id_of t req)"
         "q \<notin> set (inits logs_dir)" "q \<noteq> log_path"
  with a(2)[of q] l(2)[of q] show "nodes s' q = nodes s q" by simp
qed

lemma before_audit_touches:
  assumes fr: "frame env"
    and g: "idem_guard env t req s = (rg, s1)"
    and c: "compute env req s1 = (rc, s2)"
    and d: "dispatch env req p s2 = (rd, s3)"
  shows "touches (guard_writes env req) s s2" and "touches (guard_writes env req) s s3"
proof -
  have "touches (guard_writes env req) s s1"
    using within_idem_guard[of env req "guard_writes env req" t] g by (metis within_def snd_conv subset_refl)
  moreover have "touches (guard_writes env req) s1 s2"
    using within_compute[OF fr, of "guard_writes env req" req] c by (metis within_def snd_conv)
  ultimately show 2: "touches (guard_writes env req) s s2" by (rule touches_trans)
  have "touches (guard_writes env req) s2 s3"
    using within_dispatch[OF fr, of "guard_writes env req" req p] d by (metis within_def snd_conv)
  with 2 show "touches (guard_writes env req) s s3" by (rule touches_trans)
qed

lemma guard_writes_audit:
  "take 2 q = audit_dir \<or> take 1 q = logs_dir \<Longrightarrow> owned q \<and> q \<notin> guard_writes env req"
  by (auto simp: owned_def guard_writes_def idem_flag_def idem_dir_def audit_dir_def logs_dir_def
           split: option.splits)

subsection \<open>What the handler does not look at\<close>

lemma idem_env_post:
  "idem_check (env\<lparr>post_policy := f\<rparr>) k = idem_check env k"
  "idem_set (env\<lparr>post_policy := f\<rparr>) t k = idem_set env t k"
  by (simp_all add: idem_check_def idem_set_def idem_flag_def)

lemma env_post_policy_irrelevant:
  "idem_guard (env\<lparr>post_policy := f\<rparr>) t req = idem_guard env t req"
  "compute (env\<lparr>post_policy := f\<rparr>) req = compute env req"
  by (simp_all add: idem_guard_def idem_env_post compute_def cong: option.case_cong if_cong)

lemma minutes_irrelevant:
  "idem_guard env t (req\<lparr>minutes := m\<rparr>) = idem_guard env t req"
  "pipeline env clk (req\<lparr>minutes := m\<rparr>) = pipeline env clk req"
  by (simp_all add: idem_guard_def pipeline_def compute_def dispatch_def audit_and_log_def
        write_audit_def append_log_def audit_id_of_def audit_entry_def
        request_dict_def log_line_def response_def)

lemma touches_unchanged: "touches W s s' \<Longrightarrow> owned q \<Longrightarrow> q \<notin> W \<Longrightarrow> nodes s' q = nodes s q"
  by (simp add: touches_def)

lemma before_audit_unchanged:
  assumes "frame env"
    and "idem_guard env t req s = (rg, s1)"
    and "compute env req s1 = (rc, s2)"
    and "dispatch env req p s2 = (rd, s3)"
    and "take 2 q = audit_dir \<or> take 1 q = logs_dir"
  shows "nodes s2 q = nodes s q" and "nodes s3 q = nodes s q"
proof -
  from guard_writes_audit[OF assms(5), of env req]
  have o: "owned q" and n: "q \<notin> guard_writes env req" by simp_all
  from before_audit_touches(1)[OF assms(1-4)] o n show "nodes s2 q = nodes s q"
    by (rule touches_unchanged)
  from before_audit_touches(2)[OF assms(1-4)] o n show "nodes s3 q = nodes s q"
    by (rule touches_unchanged)
qed

lemma dispatch_dry_run:
  assumes "dry_run req" and "dispatch env req p s = (Inr r, s')"
  shows "r = dry_run_result \<and> nodes s' payload_path = Some (File [Json p])"
proof -
  from assms obtain u s1 where "mkdirs (inits processed_dir) s = (Inr u, s1)"
    and rest: "seq (open_write False payload_path [Json p]) (\<lambda>_. ret dry_run_result) s1 = (Inr r, s')"
    unfolding dispatch_def mkdir_p_known write_text_def by (auto elim: seq_InrD)
  from rest obtain v where w: "open_write False payload_path [Json p] s1 = (Inr v, s')"
    and "r = dry_run_result"
    by (auto elim!: seq_InrD simp: ret_def)
  with open_write_Inr[OF w] show ?thesis by simp
qed

subsection \<open>The sample deployment\<close>

lemmas handler_defs =
  decision_def pipeline_def compute_def dispatch_def audit_and_log_def write_audit_def
  append_log_def idem_guard_def idem_check_def idem_set_def idem_flag_def
  seq_def ret_def lift_def mkdir_p_def has_nul_def write_text_def append_text_def open_write_def
  read_text_def exists_path_def is_dir_def old_content_def path_of_def audit_path_def
  audit_id_of_def strftime_def isoformat_def pad2_def pad4_def pad6_def digit_def
  idem_dir_def processed_dir_def payload_path_def audit_dir_def logs_dir_def log_path_def
  audit_entry_def request_dict_def log_line_def response_def duplicate_response_def
  dry_run_result_def opt_str_def

lemmas sample_defs =
  sample_env_def invalid_env_def offline_env_def nul_req_def sample_sha_def sample_decision_def sample_decide_def
  sample_payload_def sample_push_def fresh_def at_second_def sample_clock_def later_clock_def next_clock_def
  plain_req_def keyed_req_def dry_req_def empty_key_req_def audit_locked_def payload_locked_def

lemma hands_off_ret: "hands_off (ret a)"
  by (simp add: hands_off_def ret_def)

lemma hands_off_lift: "hands_off (lift r)"
  by (simp add: hands_off_def lift_def)






lemma frame_invalid_env: "frame invalid_env"
  by (simp add: frame_def invalid_env_def sample_env_def hands_off_ret hands_off_lift)

lemma sample_keyed_run:
  "fst (decision sample_env sample_clock keyed_req fresh) =
     Inr (response (now_audit sample_clock) keyed_req sample_decision
            (sample_payload ''RU_001'' 30) sample_push)"
  by (simp add: handler_defs sample_defs)

lemma length_strftime: "length (strftime t) = 16"
  by (simp add: strftime_def pad2_def pad4_def)

lemma digit_in: "digit d \<in> set ''0123456789''"
  unfolding digit_def by (rule nth_mem) simp

lemma digit_not_slash: "digit d \<noteq> CHR ''/''"
  using digit_in[of d] by auto

lemma strftime_no_slash: "CHR ''/'' \<notin> set (strftime t)"
  by (simp add: strftime_def pad2_def pad4_def digit_not_slash[symmetric])

lemma split_slash_plain: "CHR ''/'' \<notin> set w \<Longrightarrow> split_slash w = [w]"
  by (induction w) auto

lemma audit_path_plain:
  assumes "CHR ''/'' \<notin> set (targetRU req)"
  shows "audit_path (audit_id_of t req) = audit_dir @ [audit_id_of t req @ ''.json'']"
proof -
  have "CHR ''/'' \<notin> set (audit_id_of t req @ ''.json'')"
    using assms strftime_no_slash[of t] by (simp add: audit_id_of_def)
  from split_slash_plain[OF this] show ?thesis
    by (simp add: audit_path_def path_of_def audit_id_of_def)
qed

lemma audit_id_eq_iff:
  "audit_id_of t1 r1 = audit_id_of t2 r2 \<longleftrightarrow>
     strftime t1 = strftime t2 \<and> targetRU r1 = targetRU r2"
  by (auto simp: audit_id_of_def length_strftime)

lemma completed_run_audit:
  assumes "frame env"
    and "decision env clk req s = (Inr resp, s')"
    and "\<forall>k. resp \<noteq> duplicate_response k"
  shows "\<exists>d p r. resp = response (now_audit clk) req d p r \<and>
           nodes s' (audit_path (audit_id_of (now_audit clk) req)) =
             Some (File [Json (audit_entry (now_audit clk) req d p r)])"
    and "\<And>q. take 2 q = audit_dir \<Longrightarrow> q \<noteq> audit_dir \<Longrightarrow>
           q \<noteq> audit_path (audit_id_of (now_audit clk) req) \<Longrightarrow> nodes s' q = nodes s q"
proof -
  from assms(2) have both: "(\<exists>d p r. resp = response (now_audit clk) req d p r \<and>
           nodes s' (audit_path (audit_id_of (now_audit clk) req)) =
             Some (File [Json (audit_entry (now_audit clk) req d p r)])) \<and>
        (\<forall>q. take 2 q = audit_dir \<longrightarrow> q \<noteq> audit_dir \<longrightarrow>
           q \<noteq> audit_path (audit_id_of (now_audit clk) req) \<longrightarrow> nodes s' q = nodes s q)"
  proof (cases rule: decision_Inr_cases)
    case (dup k)
    from assms(3) have "resp \<noteq> duplicate_response k" by simp
    with dup(3) show ?thesis by simp
  next
    case (run s1 s2 s3 d p r)
    note al = audit_and_log_Inr[OF run(4)]
    have others: "\<forall>q. take 2 q = audit_dir \<longrightarrow> q \<noteq> audit_dir \<longrightarrow>
                q \<noteq> audit_path (audit_id_of (now_audit clk) req) \<longrightarrow> nodes s' q = nodes s q"
    proof (intro allI impI)
      fix q
      assume q: "take 2 q = audit_dir" "q \<noteq> audit_dir"
        "q \<noteq> audit_path (audit_id_of (now_audit clk) req)"
      from q(1) have d1: "q \<noteq> [''data'']" by (auto simp: audit_dir_def)
      from q(1) have d2: "q \<noteq> [''logs'']" "q \<noteq> log_path"
        by (auto simp: audit_dir_def log_path_def)
      from d1 q(2) have i1: "q \<notin> set (inits audit_dir)" by (simp add: audit_dir_def)
      from d2 have i2: "q \<notin> set (inits logs_dir)" by (simp add: logs_dir_def)
      from al(4)[OF i1 q(3) i2 d2(2)] have "nodes s' q = nodes s3 q" .
      moreover from q(1) have "take 2 q = audit_dir \<or> take 1 q = logs_dir" by simp
      from before_audit_unchanged(2)[OF assms(1) run(1) run(2) run(3) this]
      have "nodes s3 q = nodes s q" .
      ultimately show "nodes s' q = nodes s q" by simp
    qed
    from al(1) al(2) have "\<exists>d p r. resp = response (now_audit clk) req d p r \<and>
           nodes s' (audit_path (audit_id_of (now_audit clk) req)) =
             Some (File [Json (audit_entry (now_audit clk) req d p r)])" by blast
    from this others show ?thesis by (rule conjI)
  qed
  from both show "\<exists>d p r. resp = response (now_audit clk) req d p r \<and>
           nodes s' (audit_path (audit_id_of (now_audit clk) req)) =
             Some (File [Json (audit_entry (now_audit clk) req d p r)])" by (rule conjunct1)
  fix q
  assume "take 2 q = audit_dir" "q \<noteq> audit_dir" "q \<noteq> audit_path (audit_id_of (now_audit clk) req)"
  with both show "nodes s' q = nodes s q" by simp
qed

lemma agree_off_refl: "agree_off q s s"
  by (simp add: agree_off_def)

lemma blind_to_ret: "blind_to q (ret a)"
  by (simp add: blind_to_def ret_def)

lemma blind_to_lift: "blind_to q (lift r)"
  by (simp add: blind_to_def lift_def)

lemma blind_to_seq:
  assumes "blind_to q (m :: ('a, 'x) io)" and "\<And>a. blind_to q (f a :: ('b, 'x) io)"
  shows "blind_to q (seq m f)"
  unfolding blind_to_def
proof (intro allI impI)
  fix s s' :: "'x state"
  assume ag: "agree_off q s s'"
  obtain r s1 where ms: "m s = (r, s1)" by (cases "m s")
  obtain r' s1' where ms': "m s' = (r', s1')" by (cases "m s'")
  from assms(1) ag ms ms' have rr: "r' = r" and ag1: "agree_off q s1 s1'"
    unfolding blind_to_def by (metis fst_conv, metis snd_conv)
  show "fst (seq m f s') = fst (seq m f s) \<and> agree_off q (snd (seq m f s)) (snd (seq m f s'))"
  proof (cases r)
    case (Inl e)
    with ms ms' rr ag1 show ?thesis by (simp add: seq_def)
  next
    case (Inr a)
    with ms ms' rr have "seq m f s = f a s1" "seq m f s' = f a s1'" by (simp_all add: seq_def)
    with assms(2)[of a] ag1 show ?thesis unfolding blind_to_def by simp
  qed
qed

lemma blind_to_mkdirs: "q \<notin> set qs \<Longrightarrow> blind_to q (mkdirs qs :: (unit, 'x) io)"
proof (induction qs)
  case Nil
  then show ?case by (simp add: blind_to_def)
next
  case (Cons a qs)
  then have aq: "a \<noteq> q" and ih: "blind_to q (mkdirs qs :: (unit, 'x) io)" by auto
  show ?case
    unfolding blind_to_def
  proof (intro allI impI)
    fix s s' :: "'x state"
    assume ag: "agree_off q s s'"
    with aq have na: "nodes s' a = nodes s a" and dn: "denied s' = denied s"
      by (simp_all add: agree_off_def)
    show "fst (mkdirs (a # qs) s') = fst (mkdirs (a # qs) s) \<and>
          agree_off q (snd (mkdirs (a # qs) s)) (snd (mkdirs (a # qs) s'))"
    proof (cases "nodes s a")
      case None
      show ?thesis
      proof (cases "a \<in> denied s")
        case True
        with None na dn ag show ?thesis by simp
      next
        case False
        from ag have "agree_off q (s\<lparr>nodes := (nodes s)(a \<mapsto> Dir)\<rparr>) (s'\<lparr>nodes := (nodes s')(a \<mapsto> Dir)\<rparr>)"
          by (simp add: agree_off_def)
        with ih None False na dn show ?thesis unfolding blind_to_def by simp
      qed
    next
      case (Some n)
      show ?thesis
      proof (cases n)
        case Dir
        with Some na ih ag show ?thesis unfolding blind_to_def by simp
      next
        case (File cs)
        with Some na ag show ?thesis by simp
      qed
    qed
  qed
qed

lemma blind_to_open_write:
  assumes "p \<noteq> q" and "butlast p \<noteq> q"
  shows "blind_to q (open_write b p cs :: (unit, 'x) io)"
  unfolding blind_to_def
proof (intro allI impI)
  fix s s' :: "'x state"
  assume ag: "agree_off q s s'"
  with assms have same: "nodes s' p = nodes s p" "nodes s' (butlast p) = nodes s (butlast p)"
      "denied s' = denied s"
    by (simp_all add: agree_off_def)
  then have cond: "is_dir s' p = is_dir s p" "is_dir s' (butlast p) = is_dir s (butlast p)"
      "old_content s' p = old_content s p"
    by (simp_all add: is_dir_def old_content_def)
  from ag show "fst (open_write b p cs s') = fst (open_write b p cs s) \<and>
        agree_off q (snd (open_write b p cs s)) (snd (open_write b p cs s'))"
    by (simp add: open_write_def cond same agree_off_def)
qed

lemma blind_to_append_log: "blind_to (audit_path i) (append_log t req d r)"
  unfolding append_log_def mkdir_p_known append_text_def
  by (intro blind_to_seq blind_to_lift blind_to_mkdirs blind_to_open_write)
     (simp_all add: audit_path_def audit_dir_def logs_dir_def log_path_def)

lemma key_irrelevant:
  "compute env (req\<lparr>idempotency_key := x\<rparr>) = compute env req"
  "dispatch env (req\<lparr>idempotency_key := x\<rparr>) = dispatch env req"
  "append_log t (req\<lparr>idempotency_key := x\<rparr>) = append_log t req"
  "response t (req\<lparr>idempotency_key := x\<rparr>) = response t req"
  "audit_id_of t (req\<lparr>idempotency_key := x\<rparr>) = audit_id_of t req"
  by (simp_all add: compute_def dispatch_def append_log_def response_def audit_id_of_def
        log_line_def fun_eq_iff)

lemma write_audit_entry_irrelevant:
  "fst (seq (mkdir_p audit_dir) (\<lambda>_. write_text q [Json e']) s) =
     fst (seq (mkdir_p audit_dir) (\<lambda>_. write_text q [Json e]) s) \<and>
   agree_off q (snd (seq (mkdir_p audit_dir) (\<lambda>_. write_text q [Json e]) s))
               (snd (seq (mkdir_p audit_dir) (\<lambda>_. write_text q [Json e']) s))"
proof (cases "mkdir_p audit_dir s")
  case (Pair r s1)
  show ?thesis
  proof (cases r)
    case (Inl x)
    with Pair show ?thesis by (simp add: seq_def agree_off_refl)
  next
    case (Inr u)
    with Pair show ?thesis
      by (simp add: seq_def write_text_def open_write_def agree_off_def)
  qed
qed

lemma audit_and_log_key:
  "fst (audit_and_log t (req\<lparr>idempotency_key := x\<rparr>) d p r s) = fst (audit_and_log t req d p r s) \<and>
   agree_off (audit_path (audit_id_of t req))
     (snd (audit_and_log t req d p r s)) (snd (audit_and_log t (req\<lparr>idempotency_key := x\<rparr>) d p r s))"
proof -
  let ?q = "audit_path (audit_id_of t req)"
  let ?wa = "\<lambda>rq. write_audit t rq d p r"
  have w: "fst (?wa (req\<lparr>idempotency_key := x\<rparr>) s) = fst (?wa req s) \<and>
           agree_off ?q (snd (?wa req s)) (snd (?wa (req\<lparr>idempotency_key := x\<rparr>) s))"
    unfolding write_audit_def key_irrelevant by (rule write_audit_entry_irrelevant)
  obtain r1 s1 where a1: "?wa req s = (r1, s1)" by (cases "?wa req s")
  obtain r2 s2 where a2: "?wa (req\<lparr>idempotency_key := x\<rparr>) s = (r2, s2)"
    by (cases "?wa (req\<lparr>idempotency_key := x\<rparr>) s")
  from w a1 a2 have rr: "r2 = r1" and ag: "agree_off ?q s1 s2" by simp_all
  show ?thesis
  proof (cases r1)
    case (Inl e)
    with a1 a2 rr ag show ?thesis by (simp add: audit_and_log_def seq_def)
  next
    case (Inr u)
    have "blind_to ?q (seq (append_log t req d r) (\<lambda>_. ret (response t req d p r)))"
      by (intro blind_to_seq blind_to_append_log blind_to_ret)
    with ag have "fst (seq (append_log t req d r) (\<lambda>_. ret (response t req d p r)) s2) =
                  fst (seq (append_log t req d r) (\<lambda>_. ret (response t req d p r)) s1) \<and>
                  agree_off ?q (snd (seq (append_log t req d r) (\<lambda>_. ret (response t req d p r)) s1))
                               (snd (seq (append_log t req d r) (\<lambda>_. ret (response t req d p r)) s2))"
      unfolding blind_to_def by blast
    with a1 a2 rr Inr show ?thesis
      by (simp add: audit_and_log_def seq_def[of "write_audit _ _ _ _ _"] key_irrelevant)
  qed
qed

lemma pipeline_key:
  "fst (pipeline env clk (req\<lparr>idempotency_key := x\<rparr>) s) = fst (pipeline env clk req s) \<and>
   agree_off (audit_path (audit_id_of (now_audit clk) req))
     (snd (pipeline env clk req s)) (snd (pipeline env clk (req\<lparr>idempotency_key := x\<rparr>) s))"
proof (cases "compute env req s")
  case (Pair rc s2)
  show ?thesis
  proof (cases rc)
    case (Inl e)
    with Pair show ?thesis by (simp add: pipeline_def seq_def key_irrelevant agree_off_refl)
  next
    case (Inr dp)
    obtain d p where dp: "dp = (d, p)" by (cases dp)
    obtain rd s3 where dd: "dispatch env req p s2 = (rd, s3)" by (cases "dispatch env req p s2")
    show ?thesis
    proof (cases rd)
      case (Inl e)
      with Pair Inr dp dd show ?thesis
        by (simp add: pipeline_def seq_def key_irrelevant agree_off_refl)
    next
      case (Inr r)
      with Pair \<open>rc = Inr dp\<close> dp dd audit_and_log_key[where t="now_audit clk" and req=req and x=x and d=d and p=p and r=r and s=s3]
      show ?thesis by (simp add: pipeline_def seq_def key_irrelevant)
    qed
  qed
qed

lemma pipeline_not_duplicate: "fst (pipeline env clk req s) \<noteq> Inr (duplicate_response k)"
proof
  assume "fst (pipeline env clk req s) = Inr (duplicate_response k)"
  then have run: "pipeline env clk req s = (Inr (duplicate_response k), snd (pipeline env clk req s))"
    by (metis prod.collapse)
  then obtain dp s2 where "compute env req s = (Inr dp, s2)"
    and rest: "(case dp of (d, p) \<Rightarrow>
                 seq (dispatch env req p) (\<lambda>r. audit_and_log (now_audit clk) req d p r)) s2
               = (Inr (duplicate_response k), snd (pipeline env clk req s))"
    unfolding pipeline_def by (erule seq_InrD)
  obtain d p where "dp = (d, p)" by (cases dp)
  with rest obtain r s3 where
    "audit_and_log (now_audit clk) req d p r s3 = (Inr (duplicate_response k), snd (pipeline env clk req s))"
    by (auto elim: seq_InrD)
  from audit_and_log_Inr(1)[OF this] show False by (simp add: response_not_duplicate[symmetric])
qed

lemma decision_without_key:
  "idempotency_key req = None \<or> idempotency_key req = Some [] \<Longrightarrow>
     decision env clk req = pipeline env clk req"
  by (auto simp: decision_def idem_guard_def seq_def ret_def fun_eq_iff)

lemma idem_guard_two_steps:
  assumes "idempotency_key req = Some k" and "k \<noteq> []"
  shows "guard_outcome k (fst (interleave env (t, k) other [False, False] (AtCheck, pb, s))) =
           Some (fst (idem_guard env t req s)) \<and>
         snd (snd (interleave env (t, k) other [False, False] (AtCheck, pb, s))) =
           snd (idem_guard env t req s)"
proof (cases "idem_check env k s")
  case (Pair r s1)
  show ?thesis
  proof (cases r)
    case (Inl e)
    with Pair assms show ?thesis
      by (simp add: idem_guard_def guard_step_def seq_def)
  next
    case (Inr found)
    show ?thesis
    proof (cases found)
      case True
      with Pair Inr assms show ?thesis
        by (simp add: idem_guard_def guard_step_def seq_def ret_def)
    next
      case False
      obtain r2 s2 where w: "idem_set env t k s1 = (r2, s2)" by (cases "idem_set env t k s1")
      with Pair Inr False assms show ?thesis
        by (cases r2) (simp_all add: idem_guard_def guard_step_def seq_def ret_def)
    qed
  qed
qed

lemma run_pair: "fst x = r \<Longrightarrow> x = (r, snd x)"
  by auto


lemma sample_dry_run:
  "fst (decision sample_env sample_clock dry_req fresh) =
     Inr (response (now_audit sample_clock) dry_req sample_decision
            (sample_payload ''RU_001'' 30) dry_run_result)"
  by (simp add: handler_defs sample_defs)

lemma response_never_duplicate: "\<forall>k. response t req d p r \<noteq> duplicate_response k"
  by (simp add: response_not_duplicate)

lemma invalid_guard:
  "fst (idem_guard invalid_env (now_flag sample_clock) keyed_req fresh) = Inr None"
  by (simp add: handler_defs sample_defs)

lemma invalid_compute:
  "fst (compute invalid_env keyed_req
          (snd (idem_guard invalid_env (now_flag sample_clock) keyed_req fresh))) =
     Inl (Raised ''InvalidForecast'')"
  by (simp add: handler_defs sample_defs)

lemma sample_overwriting_run:
  "fst (decision sample_env later_clock dry_req (snd (decision sample_env sample_clock plain_req fresh))) =
     Inr (response (now_audit later_clock) dry_req sample_decision
            (sample_payload ''RU_001'' 30) dry_run_result)"
  by (simp add: handler_defs sample_defs)

lemma locked_guard:
  "idem_guard sample_env (now_flag sample_clock) plain_req audit_locked = (Inr None, audit_locked)"
  by (simp add: idem_guard_def plain_req_def ret_def)

lemma locked_compute:
  "fst (compute sample_env plain_req audit_locked) =
     Inr (sample_decision, sample_payload ''RU_001'' 30)"
  by (simp add: handler_defs sample_defs)

lemma locked_dispatch:
  "dispatch sample_env plain_req p s = (Inr sample_push, s)"
  by (simp add: dispatch_def plain_req_def sample_env_def ret_def)

lemma locked_write_audit:
  "fst (write_audit (now_audit sample_clock) plain_req sample_decision
          (sample_payload ''RU_001'' 30) sample_push
          (snd (compute sample_env plain_req audit_locked))) = Inl (OSError audit_dir)"
  by (simp add: handler_defs sample_defs)


text \<open>Across seconds, or across targets, the audit ids of two requests that follow each
  other differ and both entries stay in place, for targets free of slashes.\<close>

lemma audit_ids_distinct_across_seconds:
  assumes "frame env"
    and "decision env clk1 req1 s = (Inr resp1, s1)"
    and "\<forall>k. resp1 \<noteq> duplicate_response k"
    and "decision env clk2 req2 s1 = (Inr resp2, s2)"
    and "\<forall>k. resp2 \<noteq> duplicate_response k"
    and "CHR ''/'' \<notin> set (targetRU req1)"
    and "CHR ''/'' \<notin> set (targetRU req2)"
    and "strftime (now_audit clk1) \<noteq> strftime (now_audit clk2) \<or> targetRU req1 \<noteq> targetRU req2"
  shows "audit_id_of (now_audit clk1) req1 \<noteq> audit_id_of (now_audit clk2) req2 \<and>
         (\<exists>d1 p1 r1 d2 p2 r2.
            resp1 = response (now_audit clk1) req1 d1 p1 r1 \<and>
            resp2 = response (now_audit clk2) req2 d2 p2 r2 \<and>
            nodes s2 (audit_path (audit_id_of (now_audit clk1) req1)) =
              Some (File [Json (audit_entry (now_audit clk1) req1 d1 p1 r1)]) \<and>
            nodes s2 (audit_path (audit_id_of (now_audit clk2) req2)) =
              Some (File [Json (audit_entry (now_audit clk2) req2 d2 p2 r2)]))"
proof -
  let ?i1 = "audit_id_of (now_audit clk1) req1" and ?i2 = "audit_id_of (now_audit clk2) req2"
  from assms(8) have ne: "?i1 \<noteq> ?i2" by (simp add: audit_id_eq_iff)
  have p1: "audit_path ?i1 = audit_dir @ [?i1 @ ''.json'']" by (rule audit_path_plain[OF assms(6)])
  have p2: "audit_path ?i2 = audit_dir @ [?i2 @ ''.json'']" by (rule audit_path_plain[OF assms(7)])
  from ne p1 p2 have pne: "audit_path ?i1 \<noteq> audit_path ?i2" by simp
  from completed_run_audit(1)[OF assms(1,2,3)] obtain d1 p1 r1
    where r1: "resp1 = response (now_audit clk1) req1 d1 p1 r1"
      and e1: "nodes s1 (audit_path ?i1) = Some (File [Json (audit_entry (now_audit clk1) req1 d1 p1 r1)])"
    by blast
  from completed_run_audit(1)[OF assms(1,4,5)] obtain d2 p2 r2
    where r2: "resp2 = response (now_audit clk2) req2 d2 p2 r2"
      and e2: "nodes s2 (audit_path ?i2) = Some (File [Json (audit_entry (now_audit clk2) req2 d2 p2 r2)])"
    by blast
  have "take 2 (audit_path ?i1) = audit_dir" by (rule audit_path_simps(5))
  moreover from p1 have "audit_path ?i1 \<noteq> audit_dir" by simp
  ultimately have "nodes s2 (audit_path ?i1) = nodes s1 (audit_path ?i1)"
    using pne by (rule completed_run_audit(2)[OF assms(1,4,5)])
  with e1 have e1': "nodes s2 (audit_path ?i1) =
      Some (File [Json (audit_entry (now_audit clk1) req1 d1 p1 r1)])" by simp
  from r1 r2 e1' e2 have "\<exists>d1 p1 r1 d2 p2 r2.
            resp1 = response (now_audit clk1) req1 d1 p1 r1 \<and>
            resp2 = response (now_audit clk2) req2 d2 p2 r2 \<and>
            nodes s2 (audit_path ?i1) =
              Some (File [Json (audit_entry (now_audit clk1) req1 d1 p1 r1)]) \<and>
            nodes s2 (audit_path ?i2) =
              Some (File [Json (audit_entry (now_audit clk2) req2 d2 p2 r2)])"
    by blast
  with ne show ?thesis by (rule conjI)
qed

lemma sample_literals:
  "response (now_audit sample_clock) keyed_req sample_decision (sample_payload ''RU_001'' 30) push =
     JObj [(''audit_id'', JStr ''20261104T072105Z-RU_001-a87''),
           (''decision'', sample_decision),
           (''policy_payload'', sample_payload ''RU_001'' 30),
           (''push_result'', push)]"
  "response (now_audit sample_clock) dry_req sample_decision (sample_payload ''RU_001'' 30) push =
     JObj [(''audit_id'', JStr ''20261104T072105Z-RU_001-a87''),
           (''decision'', sample_decision),
           (''policy_payload'', sample_payload ''RU_001'' 30),
           (''push_result'', push)]"
  "response (now_audit sample_clock) empty_key_req sample_decision (sample_payload ''RU_001'' 30) push =
     JObj [(''audit_id'', JStr ''20261104T072105Z-RU_001-a87''),
           (''decision'', sample_decision),
           (''policy_payload'', sample_payload ''RU_001'' 30),
           (''push_result'', push)]"
  "response (now_audit sample_clock) plain_req sample_decision (sample_payload ''RU_001'' 30) push =
     JObj [(''audit_id'', JStr ''20261104T072105Z-RU_001-a87''),
           (''decision'', sample_decision),
           (''policy_payload'', sample_payload ''RU_001'' 30),
           (''push_result'', push)]"
  by (simp_all add: response_def audit_id_of_def strftime_def pad2_def pad4_def digit_def
        sample_clock_def at_second_def keyed_req_def dry_req_def empty_key_req_def plain_req_def)

lemma sample_empty_key_run:
  "fst (decision sample_env sample_clock empty_key_req fresh) =
     Inr (response (now_audit sample_clock) empty_key_req sample_decision
            (sample_payload ''RU_001'' 30) sample_push)"
  by (simp add: handler_defs sample_defs)




section \<open>The claims\<close>

subsection \<open>C1: A replayed idempotency key\<close>



subsection \<open>C2: One audit entry and one log line\<close>




subsection \<open>C3: The dry run\<close>

text \<open>C3. With \<open>dry_run\<close> set, the handler does not depend on \<open>post_policy\<close> at all:
  replacing it by any other function changes neither the result nor the state. When the
  request returns its response, the \<open>push_result\<close> read off that response has
  \<open>sent = False\<close> and \<open>dry_run = True\<close>, and \<open>data/processed/policy_payload.json\<close> holds
  the \<open>policy_payload\<close> read off that response.\<close>

theorem dry_run_never_pushes:
  assumes "dry_run req"
  shows "(\<forall>f. decision (env\<lparr>post_policy := f\<rparr>) clk req s = decision env clk req s) \<and>
         (\<forall>resp s'. decision env clk req s = (Inr resp, s') \<longrightarrow>
            (\<forall>k. resp \<noteq> duplicate_response k) \<longrightarrow>
            (\<exists>d p r. resp = response (now_audit clk) req d p r \<and>
               py_get resp ''push_result'' = Inr r \<and>
               py_get r ''sent'' = Inr (JBool False) \<and>
               py_get r ''dry_run'' = Inr (JBool True) \<and>
               py_get resp ''policy_payload'' = Inr p \<and>
               nodes s' payload_path = Some (File [Json p])))"
proof (intro conjI allI impI)
  fix f
  from assms have "dispatch (env\<lparr>post_policy := f\<rparr>) req = dispatch env req"
    by (simp add: dispatch_def fun_eq_iff)
  then show "decision (env\<lparr>post_policy := f\<rparr>) clk req s = decision env clk req s"
    by (simp add: decision_def pipeline_def env_post_policy_irrelevant cong: option.case_cong)
next
  fix resp s'
  assume run: "decision env clk req s = (Inr resp, s')" and nd: "\<forall>k. resp \<noteq> duplicate_response k"
  from run show "\<exists>d p r. resp = response (now_audit clk) req d p r \<and>
               py_get resp ''push_result'' = Inr r \<and>
               py_get r ''sent'' = Inr (JBool False) \<and>
               py_get r ''dry_run'' = Inr (JBool True) \<and>
               py_get resp ''policy_payload'' = Inr p \<and>
               nodes s' payload_path = Some (File [Json p])"
  proof (cases rule: decision_Inr_cases)
    case (dup k)
    from nd have "resp \<noteq> duplicate_response k" by simp
    with dup(3) show ?thesis by simp
  next
    case (run s1 s2 s3 d p r)
    from dispatch_dry_run[OF assms run(3)]
    have r: "r = dry_run_result" and pl: "nodes s3 payload_path = Some (File [Json p])" by simp_all
    note al = audit_and_log_Inr[OF run(4)]
    have "nodes s' payload_path = nodes s3 payload_path"
      by (rule al(4)) (insert audit_path_simps(3)[of "audit_id_of (now_audit clk) req"],
          auto simp: payload_path_def audit_dir_def logs_dir_def log_path_def)
    with pl have pl': "nodes s' payload_path = Some (File [Json p])" by simp
    from al(1) have g: "py_get resp ''push_result'' = Inr r" "py_get resp ''policy_payload'' = Inr p"
      by (simp_all add: response_def)
    from r have h: "py_get r ''sent'' = Inr (JBool False)" "py_get r ''dry_run'' = Inr (JBool True)"
      by (simp_all add: dry_run_result_def)
    from al(1) g h pl' show ?thesis
      by (intro exI[of _ d] exI[of _ p] exI[of _ r] conjI)
  qed
qed

text \<open>C3 on the sample deployment: a \<open>post_policy\<close> that raises makes no difference to the
  dry run, which returns its response with the dry-run result and leaves the payload
  file.\<close>

theorem dry_run_never_pushes_witness:
  "dry_run dry_req \<and>
   decision offline_env sample_clock dry_req fresh =
     decision sample_env sample_clock dry_req fresh \<and>
   fst (decision sample_env sample_clock dry_req fresh) =
     Inr (JObj [(''audit_id'', JStr ''20261104T072105Z-RU_001-a87''),
          (''decision'', sample_decision),
          (''policy_payload'', sample_payload ''RU_001'' 30),
          (''push_result'', JObj [(''sent'', JBool False), (''dry_run'', JBool True),
                  (''saved_to'', JStr ''data/processed/policy_payload.json'')])]) \<and>
   nodes (snd (decision sample_env sample_clock dry_req fresh)) payload_path =
     Some (File [Json (sample_payload ''RU_001'' 30)])"
proof -
  have dr: "dry_run dry_req" by (simp add: dry_req_def)
  note c = dry_run_never_pushes[OF dr, of sample_env sample_clock fresh]
  from c[THEN conjunct1, rule_format, of "\<lambda>p. lift (Inl (Raised ''ConnectionError''))"]
  have c1: "decision offline_env sample_clock dry_req fresh =
            decision sample_env sample_clock dry_req fresh"
    by (simp add: offline_env_def)
  from c[THEN conjunct2, rule_format, OF run_pair[OF sample_dry_run] response_not_duplicate]
  obtain d p r where
    g: "py_get (response (now_audit sample_clock) dry_req sample_decision
                  (sample_payload ''RU_001'' 30) dry_run_result) ''policy_payload'' = Inr p"
    and pl: "nodes (snd (decision sample_env sample_clock dry_req fresh)) payload_path =
               Some (File [Json p])"
    by (elim exE conjE)
  from g have "p = sample_payload ''RU_001'' 30" by (simp add: response_def)
  with pl have c2: "nodes (snd (decision sample_env sample_clock dry_req fresh)) payload_path =
     Some (File [Json (sample_payload ''RU_001'' 30)])" by simp
  have first: "fst (decision sample_env sample_clock dry_req fresh) =
     Inr (JObj [(''audit_id'', JStr ''20261104T072105Z-RU_001-a87''),
          (''decision'', sample_decision),
          (''policy_payload'', sample_payload ''RU_001'' 30),
          (''push_result'', JObj [(''sent'', JBool False), (''dry_run'', JBool True),
                  (''saved_to'', JStr ''data/processed/policy_payload.json'')])])"
    using sample_dry_run by (simp only: sample_literals dry_run_result_def)
  show ?thesis by (rule conjI[OF dr conjI[OF c1 conjI[OF first c2]]])
qed

subsection \<open>C4: Failures before the dispatch\<close>

text \<open>C4 as stated fails on the idempotency record: with a \<open>decide\<close> that rejects the
  forecast, the request with the key \<open>abc\<close> ends in \<open>InvalidForecast\<close>, yet its flag, absent
  before, has been written, and a retry with the same key is answered as a duplicate.\<close>

theorem invalid_forecast_burns_key:
  "nodes fresh (idem_flag invalid_env ''abc'') = None \<and>
   fst (decision invalid_env sample_clock keyed_req fresh) = Inl (Raised ''InvalidForecast'') \<and>
   nodes (snd (decision invalid_env sample_clock keyed_req fresh)) (idem_flag invalid_env ''abc'') =
     Some (File [Text ''2026-11-04T07:21:05.250000+00:00'']) \<and>
   fst (decision invalid_env next_clock keyed_req
          (snd (decision invalid_env sample_clock keyed_req fresh))) =
     Inr (duplicate_response ''abc'')"
  by (simp add: handler_defs sample_defs)

text \<open>C4, as the code has it. When a request has passed the guard and one of the
  sections 1 to 3 raises (\<open>decide\<close> and \<open>build_policy\<close> among them), the exception reaches
  the caller, \<open>post_policy\<close> is never consulted, and no audit entry and no log line is
  written. The idempotency flag of a non-empty key, however, is in place by then.\<close>

theorem failure_before_dispatch_leaves_no_audit:
  assumes "frame env"
    and "idem_guard env (now_flag clk) req s = (Inr None, s1)"
    and "compute env req s1 = (Inl e, s2)"
  shows "decision env clk req s = (Inl e, s2) \<and>
         (\<forall>f. decision (env\<lparr>post_policy := f\<rparr>) clk req s = (Inl e, s2)) \<and>
         (\<forall>q. take 2 q = audit_dir \<or> take 1 q = logs_dir \<longrightarrow> nodes s2 q = nodes s q) \<and>
         (\<forall>k. idempotency_key req = Some k \<and> k \<noteq> [] \<longrightarrow> flagged env k s2)"
proof (intro conjI allI impI)
  from assms(2,3) show d: "decision env clk req s = (Inl e, s2)"
    by (simp add: decision_def pipeline_def seq_def)
  fix f
  from assms(2,3) show "decision (env\<lparr>post_policy := f\<rparr>) clk req s = (Inl e, s2)"
    by (simp add: decision_def pipeline_def seq_def env_post_policy_irrelevant)
next
  fix q
  assume q: "take 2 q = audit_dir \<or> take 1 q = logs_dir"
  have "touches (guard_writes env req) s s1"
    using within_idem_guard[of env req "guard_writes env req" "now_flag clk"] assms(2)
    by (metis within_def snd_conv subset_refl)
  moreover have "touches (guard_writes env req) s1 s2"
    using within_compute[OF assms(1), of "guard_writes env req" req] assms(3)
    by (metis within_def snd_conv)
  ultimately have "touches (guard_writes env req) s s2" by (rule touches_trans)
  with guard_writes_audit[OF q, of env req] show "nodes s2 q = nodes s q"
    by (simp add: touches_def)
next
  fix k
  assume k: "idempotency_key req = Some k \<and> k \<noteq> []"
  with idem_guard_Inr[OF assms(2)] have "flagged env k s1" by simp
  moreover have "touches UNIV s1 s2"
    using within_compute[OF assms(1), of UNIV req] assms(3) by (metis within_def snd_conv)
  ultimately show "flagged env k s2" by (rule touches_flagged[rotated])
qed

text \<open>C4 on the deployment whose \<open>decide\<close> rejects the forecast: the request with the key
  \<open>abc\<close> passes the guard and fails in \<open>decide\<close>.\<close>

theorem failure_before_dispatch_leaves_no_audit_witness:
  "frame invalid_env \<and>
   fst (idem_guard invalid_env (now_flag sample_clock) keyed_req fresh) = Inr None \<and>
   fst (compute invalid_env keyed_req
          (snd (idem_guard invalid_env (now_flag sample_clock) keyed_req fresh))) =
     Inl (Raised ''InvalidForecast'') \<and>
   fst (decision invalid_env sample_clock keyed_req fresh) = Inl (Raised ''InvalidForecast'') \<and>
   nodes (snd (decision invalid_env sample_clock keyed_req fresh)) log_path = nodes fresh log_path \<and>
   flagged invalid_env ''abc'' (snd (decision invalid_env sample_clock keyed_req fresh))"
proof -
  note c = failure_before_dispatch_leaves_no_audit[OF frame_invalid_env
      run_pair[OF invalid_guard] run_pair[OF invalid_compute]]
  from c have d: "decision invalid_env sample_clock keyed_req fresh =
      (Inl (Raised ''InvalidForecast''),
       snd (compute invalid_env keyed_req
          (snd (idem_guard invalid_env (now_flag sample_clock) keyed_req fresh))))"
    by (rule conjunct1)
  have q: "take 2 log_path = audit_dir \<or> take 1 log_path = logs_dir"
    by (simp add: log_path_def logs_dir_def)
  note c3 = c[THEN conjunct2, THEN conjunct2, THEN conjunct1, rule_format]
  from c3[OF q] have l: "nodes (snd (compute invalid_env keyed_req
          (snd (idem_guard invalid_env (now_flag sample_clock) keyed_req fresh)))) log_path =
        nodes fresh log_path" .
  have k: "idempotency_key keyed_req = Some ''abc'' \<and> ''abc'' \<noteq> []" by (simp add: keyed_req_def)
  note c4 = c[THEN conjunct2, THEN conjunct2, THEN conjunct2, rule_format]
  from c4[OF k] have f: "flagged invalid_env ''abc'' (snd (compute invalid_env keyed_req
          (snd (idem_guard invalid_env (now_flag sample_clock) keyed_req fresh))))" .
  from d l f show ?thesis
    using frame_invalid_env invalid_guard invalid_compute by simp
qed

subsection \<open>C5: Two calls in the guard\<close>

text \<open>C5. The look-up of the flag and its creation are two separate steps. On the empty
  file system, with two calls that carry the key \<open>abc\<close>: when both look the flag up
  before either writes it, both pass the guard; when the first call finishes the guard
  before the second starts, the second is rejected.\<close>

theorem guard_race_lets_both_pass:
  "fst (interleave sample_env (at_second 5 250000, ''abc'') (at_second 5 250001, ''abc'')
          [False, True, False, True] (AtCheck, AtCheck, fresh)) = Passed \<and>
   fst (snd (interleave sample_env (at_second 5 250000, ''abc'') (at_second 5 250001, ''abc'')
          [False, True, False, True] (AtCheck, AtCheck, fresh))) = Passed \<and>
   fst (interleave sample_env (at_second 5 250000, ''abc'') (at_second 5 250001, ''abc'')
          [False, False, True, True] (AtCheck, AtCheck, fresh)) = Passed \<and>
   fst (snd (interleave sample_env (at_second 5 250000, ''abc'') (at_second 5 250001, ''abc'')
          [False, False, True, True] (AtCheck, AtCheck, fresh))) = Rejected"
  by (simp add: guard_step_def handler_defs sample_defs)

subsection \<open>C6: Audit entry and response\<close>

text \<open>C6. A request that returns a response other than the duplicate object leaves, under
  its \<open>audit_id\<close>, an audit entry whose \<open>decision\<close> and \<open>policy_payload\<close> are the ones of
  the response.\<close>

theorem audit_entry_matches_response:
  assumes "decision env clk req s = (Inr resp, s')"
    and "\<forall>k. resp \<noteq> duplicate_response k"
  shows "\<exists>entry d p.
           nodes s' (audit_path (audit_id_of (now_audit clk) req)) = Some (File [Json entry]) \<and>
           py_get entry ''decision'' = Inr d \<and> py_get resp ''decision'' = Inr d \<and>
           py_get entry ''policy_payload'' = Inr p \<and> py_get resp ''policy_payload'' = Inr p \<and>
           py_get entry ''audit_id'' = py_get resp ''audit_id''"
  using assms(1)
proof (cases rule: decision_Inr_cases)
  case (dup k)
  from assms(2) have "resp \<noteq> duplicate_response k" by simp
  with dup(3) show ?thesis by simp
next
  case (run s1 s2 s3 d p r)
  note al = audit_and_log_Inr[OF run(4)]
  show ?thesis
    by (intro exI[of _ "audit_entry (now_audit clk) req d p r"] exI[of _ d] exI[of _ p])
       (simp add: al(1) al(2) audit_entry_def response_def)
qed

text \<open>C6 on the sample deployment, for the request with the key \<open>abc\<close>.\<close>

theorem audit_entry_matches_response_witness:
  "fst (decision sample_env sample_clock keyed_req fresh) =
     Inr (response (now_audit sample_clock) keyed_req sample_decision
            (sample_payload ''RU_001'' 30) sample_push) \<and>
   (\<exists>entry d p.
      nodes (snd (decision sample_env sample_clock keyed_req fresh))
        (audit_path (audit_id_of (now_audit sample_clock) keyed_req)) = Some (File [Json entry]) \<and>
      py_get entry ''decision'' = Inr d \<and>
      py_get (response (now_audit sample_clock) keyed_req sample_decision
            (sample_payload ''RU_001'' 30) sample_push) ''decision'' = Inr d \<and>
      py_get entry ''policy_payload'' = Inr p \<and>
      py_get (response (now_audit sample_clock) keyed_req sample_decision
            (sample_payload ''RU_001'' 30) sample_push) ''policy_payload'' = Inr p \<and>
      py_get entry ''audit_id'' =
        py_get (response (now_audit sample_clock) keyed_req sample_decision
            (sample_payload ''RU_001'' 30) sample_push) ''audit_id'')"
proof -
  note c = audit_entry_matches_response[OF run_pair[OF sample_keyed_run] response_never_duplicate]
  show ?thesis by (rule conjI[OF sample_keyed_run c])
qed

subsection \<open>C7: The audit id\<close>

text \<open>C7. The \<open>audit_id\<close> is made of the timestamp at one-second resolution, the target
  and a fixed suffix, and the entry is written with \<open>write_text\<close>. Two requests for the
  same target, the second strictly later on the clock than the first but within the same
  second, both return a response, receive the same \<open>audit_id\<close>, and the entry of the
  second replaces the entry of the first.\<close>

theorem same_second_overwrites_audit_entry:
  "dt_less (now_audit sample_clock) (now_flag later_clock) \<and>
   dt_less (now_flag later_clock) (now_audit later_clock) \<and>
   fst (decision sample_env sample_clock plain_req fresh) =
     Inr (response (now_audit sample_clock) plain_req sample_decision
            (sample_payload ''RU_001'' 30) sample_push) \<and>
   fst (decision sample_env later_clock dry_req (snd (decision sample_env sample_clock plain_req fresh))) =
     Inr (response (now_audit later_clock) dry_req sample_decision
            (sample_payload ''RU_001'' 30) dry_run_result) \<and>
   audit_id_of (now_audit sample_clock) plain_req = ''20261104T072105Z-RU_001-a87'' \<and>
   audit_id_of (now_audit later_clock) dry_req = ''20261104T072105Z-RU_001-a87'' \<and>
   nodes (snd (decision sample_env sample_clock plain_req fresh))
     (audit_path ''20261104T072105Z-RU_001-a87'') =
     Some (File [Json (audit_entry (now_audit sample_clock) plain_req sample_decision
                        (sample_payload ''RU_001'' 30) sample_push)]) \<and>
   nodes (snd (decision sample_env later_clock dry_req
                 (snd (decision sample_env sample_clock plain_req fresh))))
     (audit_path ''20261104T072105Z-RU_001-a87'') =
     Some (File [Json (audit_entry (now_audit later_clock) dry_req sample_decision
                        (sample_payload ''RU_001'' 30) dry_run_result)]) \<and>
   audit_entry (now_audit sample_clock) plain_req sample_decision
     (sample_payload ''RU_001'' 30) sample_push \<noteq>
   audit_entry (now_audit later_clock) dry_req sample_decision
     (sample_payload ''RU_001'' 30) dry_run_result"
  by (simp add: handler_defs sample_defs dt_less_def dt_key_def)

subsection \<open>C8: A failed audit write\<close>

text \<open>C8 as stated fails on the kind of the error. With the audit directory refused by
  the system, after a push that was sent, the caller receives the \<open>OSError\<close> of the failed
  \<open>mkdir\<close>; with a NUL byte in the target, after the same push, the \<open>ValueError\<close> of the
  failed \<open>write_text\<close>. Neither is an \<open>AuditPersistenceError\<close>, and a dry run whose
  payload file is refused ends in an \<open>OSError\<close> just as the failed audit write does.\<close>

theorem audit_failure_is_no_error_of_its_own:
  "py_get sample_push ''sent'' = Inr (JBool True) \<and>
   fst (dispatch sample_env plain_req (sample_payload ''RU_001'' 30)
          (snd (compute sample_env plain_req audit_locked))) = Inr sample_push \<and>
   fst (decision sample_env sample_clock plain_req audit_locked) = Inl (OSError audit_dir) \<and>
   fst (decision sample_env sample_clock plain_req audit_locked) \<noteq>
     Inl (Raised ''AuditPersistenceError'') \<and>
   fst (decision sample_env sample_clock nul_req fresh) = Inl ValueError \<and>
   fst (decision sample_env sample_clock nul_req fresh) \<noteq>
     Inl (Raised ''AuditPersistenceError'') \<and>
   fst (decision sample_env sample_clock dry_req payload_locked) = Inl (OSError payload_path)"
  by (simp add: handler_defs sample_defs)

text \<open>C8, as the code has it. When the audit write fails after a successful dispatch, the
  handler neither absorbs nor wraps the failure: the exception the file operation raised
  is the outcome of the request as it is, an \<open>OSError\<close> or, for a NUL byte in the path,
  a \<open>ValueError\<close>; no response is returned and the log is left as it was.\<close>

theorem audit_write_failure_surfaces:
  assumes "idem_guard env (now_flag clk) req s = (Inr None, s1)"
    and "compute env req s1 = (Inr (d, p), s2)"
    and "dispatch env req p s2 = (Inr r, s3)"
    and "write_audit (now_audit clk) req d p r s3 = (Inl e, s4)"
  shows "decision env clk req s = (Inl e, s4) \<and>
         ((\<exists>q. e = OSError q) \<or> e = ValueError) \<and>
         (\<forall>n. e \<noteq> Raised n) \<and>
         nodes s4 log_path = nodes s3 log_path"
proof -
  from assms have 1: "decision env clk req s = (Inl e, s4)"
    by (simp add: decision_def pipeline_def audit_and_log_def seq_def)
  from write_audit_Inl[OF assms(4)] have 2: "(\<exists>q. e = OSError q) \<or> e = ValueError"
    and 4: "nodes s4 log_path = nodes s3 log_path"
    by (auto simp: audit_dir_def log_path_def)
  from 2 have 3: "\<forall>n. e \<noteq> Raised n" by auto
  from 1 2 3 4 show ?thesis by (intro conjI)
qed

text \<open>C8 on the sample deployment, with the audit directory refused and with a NUL byte
  in the target.\<close>

theorem audit_write_failure_surfaces_witness:
  "idem_guard sample_env (now_flag sample_clock) plain_req audit_locked = (Inr None, audit_locked) \<and>
   fst (compute sample_env plain_req audit_locked) =
     Inr (sample_decision, sample_payload ''RU_001'' 30) \<and>
   dispatch sample_env plain_req (sample_payload ''RU_001'' 30)
       (snd (compute sample_env plain_req audit_locked)) =
     (Inr sample_push, snd (compute sample_env plain_req audit_locked)) \<and>
   fst (write_audit (now_audit sample_clock) plain_req sample_decision
          (sample_payload ''RU_001'' 30) sample_push
          (snd (compute sample_env plain_req audit_locked))) = Inl (OSError audit_dir) \<and>
   fst (decision sample_env sample_clock plain_req audit_locked) = Inl (OSError audit_dir) \<and>
   nodes (snd (decision sample_env sample_clock plain_req audit_locked)) log_path =
     nodes (snd (compute sample_env plain_req audit_locked)) log_path"
proof -
  note c = audit_write_failure_surfaces[OF locked_guard run_pair[OF locked_compute]
      locked_dispatch run_pair[OF locked_write_audit]]
  from c show ?thesis
    using locked_guard locked_compute locked_dispatch locked_write_audit by simp
qed

subsection \<open>C9: The field minutes\<close>

text \<open>C9. The field \<open>minutes\<close> of the request has no influence on the handler.\<close>

theorem minutes_ignored:
  "decision env clk (req\<lparr>minutes := m\<rparr>) = decision env clk req"
  by (simp add: decision_def minutes_irrelevant cong: option.case_cong)

subsection \<open>C10: The empty key\<close>

text \<open>C10 as stated fails on the word exactly: the request with the empty key and the same
  request without a key leave different audit entries, the one recording the key as the
  empty string, the other as \<open>null\<close>.\<close>

theorem empty_key_is_recorded_in_audit_entry:
  "empty_key_req\<lparr>idempotency_key := None\<rparr> = plain_req \<and>
   nodes (snd (decision sample_env sample_clock empty_key_req fresh))
     (audit_path ''20261104T072105Z-RU_001-a87'') =
     Some (File [Json (audit_entry (now_audit sample_clock) empty_key_req sample_decision
                        (sample_payload ''RU_001'' 30) sample_push)]) \<and>
   nodes (snd (decision sample_env sample_clock plain_req fresh))
     (audit_path ''20261104T072105Z-RU_001-a87'') =
     Some (File [Json (audit_entry (now_audit sample_clock) plain_req sample_decision
                        (sample_payload ''RU_001'' 30) sample_push)]) \<and>
   py_get (request_dict empty_key_req) ''idempotency_key'' = Inr (JStr []) \<and>
   py_get (request_dict plain_req) ''idempotency_key'' = Inr JNull \<and>
   nodes (snd (decision sample_env sample_clock empty_key_req fresh))
     (audit_path ''20261104T072105Z-RU_001-a87'') \<noteq>
   nodes (snd (decision sample_env sample_clock plain_req fresh))
     (audit_path ''20261104T072105Z-RU_001-a87'')"
  by (simp add: handler_defs sample_defs)

text \<open>C10, as the code has it. A request whose idempotency key is the empty string skips
  the guard and runs sections 1 to 5: the forecast, the decision, the payload, the
  dispatch, the audit entry and the log line. Neither the digest function nor the clock
  reading of the flag has any influence on it, so no flag is looked up or written; it is
  never answered with the duplicate object, in whatever state it arrives; when it
  returns, the response carries the decision, the payload, the push result and the
  \<open>audit_id\<close> of the entry it wrote, which records the key as the empty string; and it
  returns what the same request without a key returns and leaves the same state, but
  for that audit entry.\<close>

theorem empty_key_runs_unguarded:
  assumes "idempotency_key req = Some []"
  shows "decision env clk req s =
           seq (compute env req) (\<lambda>(d, p).
           seq (dispatch env req p) (\<lambda>r.
           audit_and_log (now_audit clk) req d p r)) s \<and>
         (\<forall>h t. decision (env\<lparr>sha256_hex := h\<rparr>) (clk\<lparr>now_flag := t\<rparr>) req s =
                decision env clk req s) \<and>
         (\<forall>k. fst (decision env clk req s) \<noteq>
            Inr (JObj [(''error'', JStr ''duplicate idempotency_key''), (''idempotency_key'', JStr k)])) \<and>
         (\<forall>resp s'. decision env clk req s = (Inr resp, s') \<longrightarrow>
            (\<exists>d p r rq.
               py_get resp ''audit_id'' = Inr (JStr (audit_id_of (now_audit clk) req)) \<and>
               py_get resp ''decision'' = Inr d \<and>
               py_get resp ''policy_payload'' = Inr p \<and>
               py_get resp ''push_result'' = Inr r \<and>
               nodes s' (audit_path (audit_id_of (now_audit clk) req)) =
                 Some (File [Json (audit_entry (now_audit clk) req d p r)]) \<and>
               py_get (audit_entry (now_audit clk) req d p r) ''request'' = Inr rq \<and>
               py_get rq ''idempotency_key'' = Inr (JStr []))) \<and>
         fst (decision env clk (req\<lparr>idempotency_key := None\<rparr>) s) = fst (decision env clk req s) \<and>
         agree_off (audit_path (audit_id_of (now_audit clk) req))
           (snd (decision env clk req s))
           (snd (decision env clk (req\<lparr>idempotency_key := None\<rparr>) s))"
proof -
  have d: "decision env clk req = pipeline env clk req"
    using assms by (simp add: decision_without_key)
  have d': "decision env clk (req\<lparr>idempotency_key := None\<rparr>) =
            pipeline env clk (req\<lparr>idempotency_key := None\<rparr>)"
    by (simp add: decision_without_key)
  have 1: "decision env clk req s =
           seq (compute env req) (\<lambda>(d, p).
           seq (dispatch env req p) (\<lambda>r.
           audit_and_log (now_audit clk) req d p r)) s"
    by (simp add: d pipeline_def)
  have indep: "decision (env\<lparr>sha256_hex := h\<rparr>) (clk\<lparr>now_flag := t\<rparr>) req s = decision env clk req s"
    for h t
  proof -
    have "decision (env\<lparr>sha256_hex := h\<rparr>) (clk\<lparr>now_flag := t\<rparr>) req =
          pipeline (env\<lparr>sha256_hex := h\<rparr>) (clk\<lparr>now_flag := t\<rparr>) req"
      using assms by (simp add: decision_without_key)
    also have "\<dots> = pipeline env clk req"
      by (simp add: pipeline_def compute_def dispatch_def cong: if_cong)
    finally show ?thesis using d by simp
  qed
  then have 2: "\<forall>h t. decision (env\<lparr>sha256_hex := h\<rparr>) (clk\<lparr>now_flag := t\<rparr>) req s =
                decision env clk req s" by blast
  have 3: "\<forall>k. fst (decision env clk req s) \<noteq>
            Inr (JObj [(''error'', JStr ''duplicate idempotency_key''), (''idempotency_key'', JStr k)])"
    using pipeline_not_duplicate[of env clk req s] by (simp add: d duplicate_response_def)
  have 4: "\<exists>d p r rq.
               py_get resp ''audit_id'' = Inr (JStr (audit_id_of (now_audit clk) req)) \<and>
               py_get resp ''decision'' = Inr d \<and>
               py_get resp ''policy_payload'' = Inr p \<and>
               py_get resp ''push_result'' = Inr r \<and>
               nodes s' (audit_path (audit_id_of (now_audit clk) req)) =
                 Some (File [Json (audit_entry (now_audit clk) req d p r)]) \<and>
               py_get (audit_entry (now_audit clk) req d p r) ''request'' = Inr rq \<and>
               py_get rq ''idempotency_key'' = Inr (JStr [])"
    if run: "decision env clk req s = (Inr resp, s')" for resp s'
    using run
  proof (cases rule: decision_Inr_cases)
    case (dup k)
    with assms show ?thesis by simp
  next
    case (run s1 s2 s3 d p r)
    note al = audit_and_log_Inr[OF run(4)]
    from al(1) have g: "py_get resp ''audit_id'' = Inr (JStr (audit_id_of (now_audit clk) req))"
      "py_get resp ''decision'' = Inr d" "py_get resp ''policy_payload'' = Inr p"
      "py_get resp ''push_result'' = Inr r"
      by (simp_all add: response_def)
    have e: "py_get (audit_entry (now_audit clk) req d p r) ''request'' = Inr (request_dict req)"
      by (simp add: audit_entry_def)
    from assms have k: "py_get (request_dict req) ''idempotency_key'' = Inr (JStr [])"
      by (simp add: request_dict_def opt_str_def)
    from g al(2) e k show ?thesis
      by (intro exI[of _ d] exI[of _ p] exI[of _ r] exI[of _ "request_dict req"] conjI)
  qed
  then have 4: "\<forall>resp s'. decision env clk req s = (Inr resp, s') \<longrightarrow>
            (\<exists>d p r rq.
               py_get resp ''audit_id'' = Inr (JStr (audit_id_of (now_audit clk) req)) \<and>
               py_get resp ''decision'' = Inr d \<and>
               py_get resp ''policy_payload'' = Inr p \<and>
               py_get resp ''push_result'' = Inr r \<and>
               nodes s' (audit_path (audit_id_of (now_audit clk) req)) =
                 Some (File [Json (audit_entry (now_audit clk) req d p r)]) \<and>
               py_get (audit_entry (now_audit clk) req d p r) ''request'' = Inr rq \<and>
               py_get rq ''idempotency_key'' = Inr (JStr []))" by blast
  from pipeline_key[where env=env and clk=clk and req=req and x=None and s=s]
  have 5: "fst (decision env clk (req\<lparr>idempotency_key := None\<rparr>) s) = fst (decision env clk req s)"
    and 6: "agree_off (audit_path (audit_id_of (now_audit clk) req))
           (snd (decision env clk req s))
           (snd (decision env clk (req\<lparr>idempotency_key := None\<rparr>) s))"
    by (simp_all add: d d')
  from 1 2 3 4 5 6 show ?thesis by (intro conjI)
qed

text \<open>C10 on the sample deployment: another digest function and another clock reading
  for the flag change nothing for the request with the empty key, which returns its
  full response.\<close>

theorem empty_key_runs_unguarded_witness:
  "idempotency_key empty_key_req = Some [] \<and>
   fst (decision sample_env sample_clock empty_key_req fresh) =
     Inr (JObj [(''audit_id'', JStr ''20261104T072105Z-RU_001-a87''),
          (''decision'', sample_decision),
          (''policy_payload'', sample_payload ''RU_001'' 30),
          (''push_result'', sample_push)]) \<and>
   decision (sample_env\<lparr>sha256_hex := (\<lambda>k. ''00'')\<rparr>) (sample_clock\<lparr>now_flag := at_second 9 0\<rparr>)
       empty_key_req fresh =
     decision sample_env sample_clock empty_key_req fresh \<and>
   nodes (snd (decision sample_env sample_clock empty_key_req fresh))
     (audit_path (audit_id_of (now_audit sample_clock) empty_key_req)) =
     Some (File [Json (audit_entry (now_audit sample_clock) empty_key_req sample_decision
                        (sample_payload ''RU_001'' 30) sample_push)]) \<and>
   fst (decision sample_env sample_clock (empty_key_req\<lparr>idempotency_key := None\<rparr>) fresh) =
     fst (decision sample_env sample_clock empty_key_req fresh) \<and>
   agree_off (audit_path (audit_id_of (now_audit sample_clock) empty_key_req))
     (snd (decision sample_env sample_clock empty_key_req fresh))
     (snd (decision sample_env sample_clock (empty_key_req\<lparr>idempotency_key := None\<rparr>) fresh))"
proof -
  have k: "idempotency_key empty_key_req = Some []" by (simp add: empty_key_req_def)
  note c = empty_key_runs_unguarded[OF k, of sample_env sample_clock fresh]
  note c2 = c[THEN conjunct2, THEN conjunct1, rule_format]
  note c4 = c[THEN conjunct2, THEN conjunct2, THEN conjunct2, THEN conjunct1, rule_format,
      OF run_pair[OF sample_empty_key_run]]
  note c5 = c[THEN conjunct2, THEN conjunct2, THEN conjunct2, THEN conjunct2, THEN conjunct1]
  note c6 = c[THEN conjunct2, THEN conjunct2, THEN conjunct2, THEN conjunct2, THEN conjunct2]
  from c4 obtain d p r where
    g: "py_get (response (now_audit sample_clock) empty_key_req sample_decision
                  (sample_payload ''RU_001'' 30) sample_push) ''decision'' = Inr d"
       "py_get (response (now_audit sample_clock) empty_key_req sample_decision
                  (sample_payload ''RU_001'' 30) sample_push) ''policy_payload'' = Inr p"
       "py_get (response (now_audit sample_clock) empty_key_req sample_decision
                  (sample_payload ''RU_001'' 30) sample_push) ''push_result'' = Inr r"
    and au: "nodes (snd (decision sample_env sample_clock empty_key_req fresh))
               (audit_path (audit_id_of (now_audit sample_clock) empty_key_req)) =
             Some (File [Json (audit_entry (now_audit sample_clock) empty_key_req d p r)])"
    by (elim exE conjE)
  from g have "d = sample_decision" "p = sample_payload ''RU_001'' 30" "r = sample_push"
    by (simp_all add: response_def)
  with au have w: "nodes (snd (decision sample_env sample_clock empty_key_req fresh))
     (audit_path (audit_id_of (now_audit sample_clock) empty_key_req)) =
     Some (File [Json (audit_entry (now_audit sample_clock) empty_key_req sample_decision
                        (sample_payload ''RU_001'' 30) sample_push)])" by simp
  have first: "fst (decision sample_env sample_clock empty_key_req fresh) =
     Inr (JObj [(''audit_id'', JStr ''20261104T072105Z-RU_001-a87''),
          (''decision'', sample_decision),
          (''policy_payload'', sample_payload ''RU_001'' 30),
          (''push_result'', sample_push)])"
    using sample_empty_key_run by (simp only: sample_literals)
  show ?thesis by (rule conjI[OF k conjI[OF first conjI[OF c2 conjI[OF w conjI[OF c5 c6]]]]])
qed

end
